theory Spec2Isabelle
  imports Main "HOL-Library.Multiset"
begin

section \<open>Strings of the runtime\<close>

text \<open>
  A JavaScript string is modelled as a \<^typ>\<open>string\<close> whose characters are the code
  units below 256, that is ASCII and Latin-1; \<open>toLowerCase\<close> and \<open>trim\<close> are the
  runtime's on such strings. The vocabulary of the program is ASCII throughout; for
  text with other code units the model says nothing. \<open>null\<close> is \<open>None\<close> where the
  source tests for it.
\<close>

definition upperCaseLetters :: "char list" where
  \<comment> \<open>A..Z and the Latin-1 capitals U+00C0..U+00DE (U+00D7, the multiplication sign,
      is none)\<close>
  "upperCaseLetters =
     ''ABCDEFGHIJKLMNOPQRSTUVWXYZ'' @
     [CHR 0xC0, CHR 0xC1, CHR 0xC2, CHR 0xC3, CHR 0xC4, CHR 0xC5, CHR 0xC6, CHR 0xC7,
      CHR 0xC8, CHR 0xC9, CHR 0xCA, CHR 0xCB, CHR 0xCC, CHR 0xCD, CHR 0xCE, CHR 0xCF,
      CHR 0xD0, CHR 0xD1, CHR 0xD2, CHR 0xD3, CHR 0xD4, CHR 0xD5, CHR 0xD6, CHR 0xD8,
      CHR 0xD9, CHR 0xDA, CHR 0xDB, CHR 0xDC, CHR 0xDD, CHR 0xDE]"

definition lowerCaseLetters :: "char list" where
  \<comment> \<open>a..z and U+00E0..U+00FE (without U+00F7), in the same order\<close>
  "lowerCaseLetters =
     ''abcdefghijklmnopqrstuvwxyz'' @
     [CHR 0xE0, CHR 0xE1, CHR 0xE2, CHR 0xE3, CHR 0xE4, CHR 0xE5, CHR 0xE6, CHR 0xE7,
      CHR 0xE8, CHR 0xE9, CHR 0xEA, CHR 0xEB, CHR 0xEC, CHR 0xED, CHR 0xEE, CHR 0xEF,
      CHR 0xF0, CHR 0xF1, CHR 0xF2, CHR 0xF3, CHR 0xF4, CHR 0xF5, CHR 0xF6, CHR 0xF8,
      CHR 0xF9, CHR 0xFA, CHR 0xFB, CHR 0xFC, CHR 0xFD, CHR 0xFE]"

definition toLowerChar :: "char \<Rightarrow> char" where
  \<comment> \<open>one character of \<open>String.prototype.toLowerCase\<close>\<close>
  "toLowerChar c =
     (case map_of (zip upperCaseLetters lowerCaseLetters) c of
        Some l \<Rightarrow> l
      | None \<Rightarrow> c)"

definition toLowerCase :: "string \<Rightarrow> string" where
  "toLowerCase s = map toLowerChar s"

fun startsWith :: "string \<Rightarrow> string \<Rightarrow> bool" where
  "startsWith t [] = True"
| "startsWith [] (p # ps) = False"
| "startsWith (c # cs) (p # ps) = (c = p \<and> startsWith cs ps)"

fun js_includes :: "string \<Rightarrow> string \<Rightarrow> bool" where
  \<comment> \<open>\<open>String.prototype.includes\<close>: the pattern occurs somewhere in the text\<close>
  "js_includes [] p = (p = [])"
| "js_includes (c # cs) p = (startsWith (c # cs) p \<or> js_includes cs p)"

definition isWhiteSpace :: "char \<Rightarrow> bool" where
  \<comment> \<open>the white space and line terminators that \<open>trim\<close> strips: TAB, LF, VT, FF, CR,
      SPACE and the no-break space U+00A0\<close>
  "isWhiteSpace c =
     (c \<in> set [CHR 0x09, CHR 0x0A, CHR 0x0B, CHR 0x0C, CHR 0x0D, CHR 0x20, CHR 0xA0])"

definition trimStart :: "string \<Rightarrow> string" where
  "trimStart s = dropWhile isWhiteSpace s"

definition trim :: "string \<Rightarrow> string" where
  \<comment> \<open>\<open>String.prototype.trim\<close>\<close>
  "trim s = rev (trimStart (rev (trimStart s)))"

fun split_comma :: "string \<Rightarrow> string list" where
  \<comment> \<open>\<open>s.split(',')\<close>: never empty, \<open>''''.split(',')\<close> is \<open>['''']\<close>\<close>
  "split_comma [] = [[]]"
| "split_comma (c # cs) =
     (if c = CHR '','' then [] # split_comma cs
      else (case split_comma cs of
              [] \<Rightarrow> [[c]]
            | t # ts \<Rightarrow> (c # t) # ts))"

fun join_comma :: "string list \<Rightarrow> string" where
  \<comment> \<open>\<open>xs.join(',')\<close>\<close>
  "join_comma [] = []"
| "join_comma [t] = t"
| "join_comma (t # u # ts) = t @ CHR '','' # join_comma (u # ts)"

section \<open>Skill vocabulary and extraction\<close>

definition KNOWN_SKILLS :: "string list" where
  "KNOWN_SKILLS =
    [''JavaScript'', ''TypeScript'', ''Python'', ''Java'', ''C++'', ''C#'', ''C'', ''Go'',
     ''Rust'', ''Ruby'', ''PHP'', ''Swift'', ''Kotlin'', ''Scala'', ''R'', ''MATLAB'',
     ''React'', ''Angular'', ''Vue'', ''Vue.js'', ''Next.js'', ''Nuxt.js'', ''HTML'', ''CSS'',
     ''Sass'', ''Tailwind'', ''Bootstrap'', ''jQuery'', ''Redux'', ''GraphQL'', ''WebGL'',
     ''Three.js'',
     ''Node.js'', ''Express'', ''Django'', ''Flask'', ''FastAPI'', ''Spring'', ''Spring Boot'',
     ''Laravel'', ''Rails'', ''ASP.NET'', ''.NET'', ''Symfony'',
     ''MySQL'', ''PostgreSQL'', ''MongoDB'', ''Redis'', ''SQLite'', ''Oracle'', ''SQL Server'',
     ''Firebase'', ''Supabase'', ''DynamoDB'', ''Cassandra'', ''Elasticsearch'',
     ''AWS'', ''Azure'', ''GCP'', ''Docker'', ''Kubernetes'', ''CI/CD'', ''Jenkins'',
     ''GitHub Actions'', ''Terraform'', ''Ansible'', ''Linux'', ''Nginx'', ''Apache'',
     ''React Native'', ''Flutter'', ''Android'', ''iOS'', ''Xamarin'',
     ''Machine Learning'', ''Deep Learning'', ''TensorFlow'', ''PyTorch'', ''Pandas'',
     ''NumPy'', ''Scikit-learn'', ''OpenCV'', ''NLP'', ''LLM'', ''Data Science'', ''Power BI'',
     ''Tableau'',
     ''Git'', ''GitHub'', ''GitLab'', ''Jira'', ''Figma'', ''REST'', ''REST API'',
     ''Microservices'', ''Agile'', ''Scrum'', ''OOP'', ''DSA'', ''Data Structures'',
     ''Jest'', ''Mocha'', ''Selenium'', ''Cypress'', ''JUnit'', ''pytest'']"

definition extractSkillsFromText :: "string option \<Rightarrow> string list" where
  "extractSkillsFromText text =
     (case text of
        None \<Rightarrow> []
      | Some t \<Rightarrow>
          if t = [] then []
          else (let lower = toLowerCase t
                in filter (\<lambda>skill. js_includes lower (toLowerCase skill)) KNOWN_SKILLS))"

section \<open>Numbers of the runtime\<close>

text \<open>
  Every readiness figure of the program is \<open>Math.round((a / t) * 100)\<close> for two array
  lengths \<open>a\<close> and \<open>t\<close>. The quotient and the product are IEEE 754 doubles: each is
  the representable number nearest to the exact result, ties going to the even
  significand. A non-negative finite double is written \<open>Finite m k\<close>, standing for
  \<open>m / 2 ^ k\<close>; \<open>nearest_double n d\<close> is the double nearest to \<open>n / d\<close>, with a 53 bit
  significand, for \<open>n / d\<close> below \<open>2 ^ 53\<close> and above the subnormal range (array lengths
  are below \<open>2 ^ 32\<close>, and no figure exceeds 100).
\<close>

datatype double = Finite nat nat | DNaN | DInfinity

datatype jsnum = Number int | NaN | PosInfinity | NegInfinity

definition round_half_even :: "nat \<Rightarrow> nat \<Rightarrow> nat" where
  \<comment> \<open>the integer nearest to \<open>n / d\<close>, a tie going to the even one\<close>
  "round_half_even n d =
     (let q = n div d; r = n mod d
      in if 2 * r < d then q
         else if d < 2 * r then q + 1
         else if even q then q else q + 1)"

definition two52 :: nat where
  \<comment> \<open>significands lie between \<open>2 ^ 52\<close> and \<open>2 ^ 53\<close>\<close>
  "two52 = 2 ^ 52"

function find_scale :: "nat \<Rightarrow> nat \<Rightarrow> nat \<Rightarrow> nat" where
  \<comment> \<open>the least \<open>j \<ge> k\<close> with \<open>2 ^ 52 \<le> n * 2 ^ j / d\<close>\<close>
  "find_scale n d k =
     (if n = 0 \<or> d * two52 \<le> n * 2 ^ k then k else find_scale n d (Suc k))"
  by pat_completeness auto
termination
proof (relation "measure (\<lambda>(n, d, k). d * two52 - n * 2 ^ k)")
  show "wf (measure (\<lambda>(n, d, k). d * two52 - n * 2 ^ k))"
    by simp
next
  fix n d k :: nat
  assume a: "\<not> (n = 0 \<or> d * two52 \<le> n * 2 ^ k)"
  from a have "n * 2 ^ k < n * 2 ^ Suc k"
    by simp
  moreover from a have "n * 2 ^ k < d * two52"
    by simp
  ultimately have "d * two52 - n * 2 ^ Suc k < d * two52 - n * 2 ^ k"
    by (rule diff_less_mono2)
  then show "((n, d, Suc k), (n, d, k)) \<in> measure (\<lambda>(n, d, k). d * two52 - n * 2 ^ k)"
    by simp
qed

declare find_scale.simps [simp del]

definition nearest_double :: "nat \<Rightarrow> nat \<Rightarrow> double" where
  "nearest_double n d =
     (if n = 0 then Finite 0 0
      else (let k = find_scale n d 0 in Finite (round_half_even (n * 2 ^ k) d) k))"

definition js_div :: "nat \<Rightarrow> nat \<Rightarrow> double" where
  \<comment> \<open>\<open>a / t\<close> on two array lengths: \<open>0 / 0\<close> is NaN, \<open>a / 0\<close> is Infinity\<close>
  "js_div a t =
     (if t = 0 then (if a = 0 then DNaN else DInfinity) else nearest_double a t)"

fun js_times100 :: "double \<Rightarrow> double" where
  \<comment> \<open>\<open>x * 100\<close>\<close>
  "js_times100 (Finite m k) = nearest_double (m * 100) (2 ^ k)"
| "js_times100 DNaN = DNaN"
| "js_times100 DInfinity = DInfinity"

fun Math_round :: "double \<Rightarrow> jsnum" where
  \<comment> \<open>\<open>Math.round\<close>: the integer \<open>floor (x + 1/2)\<close>; NaN and Infinity are kept\<close>
  "Math_round (Finite m k) = Number (int ((2 * m + 2 ^ k) div 2 ^ (k + 1)))"
| "Math_round DNaN = NaN"
| "Math_round DInfinity = PosInfinity"

definition percent :: "nat \<Rightarrow> nat \<Rightarrow> jsnum" where
  \<comment> \<open>\<open>Math.round((a / t) * 100)\<close>\<close>
  "percent a t = Math_round (js_times100 (js_div a t))"

fun js_minus :: "jsnum \<Rightarrow> jsnum \<Rightarrow> jsnum" where
  \<comment> \<open>\<open>x - y\<close> on the values \<open>Math.round\<close> returns\<close>
  "js_minus (Number x) (Number y) = Number (x - y)"
| "js_minus NaN y = NaN"
| "js_minus x NaN = NaN"
| "js_minus PosInfinity PosInfinity = NaN"
| "js_minus NegInfinity NegInfinity = NaN"
| "js_minus PosInfinity y = PosInfinity"
| "js_minus NegInfinity y = NegInfinity"
| "js_minus (Number x) PosInfinity = NegInfinity"
| "js_minus (Number x) NegInfinity = PosInfinity"

fun js_ge :: "jsnum \<Rightarrow> int \<Rightarrow> bool" where
  \<comment> \<open>\<open>x >= n\<close>: false on NaN\<close>
  "js_ge (Number x) n = (n \<le> x)"
| "js_ge NaN n = False"
| "js_ge PosInfinity n = True"
| "js_ge NegInfinity n = False"

definition figure :: "jsnum \<Rightarrow> int" where
  \<comment> \<open>the integer a number holds; used to state orderings only\<close>
  "figure x = (case x of Number p \<Rightarrow> p | _ \<Rightarrow> 0)"

fun js_negative :: "jsnum \<Rightarrow> bool" where
  \<comment> \<open>\<open>x < 0\<close>\<close>
  "js_negative (Number x) = (x < 0)"
| "js_negative NaN = False"
| "js_negative PosInfinity = False"
| "js_negative NegInfinity = True"

subsection \<open>\<open>Array.prototype.sort\<close> with a comparator\<close>

text \<open>
  The language turns a comparator result NaN into \<open>+0\<close> and promises the stable
  ascending order when the comparator is a consistent ordering; otherwise the order is
  left to the engine. The model follows the engine V8 on an array of fewer than 64
  elements: the longest run at the front that is ascending, or strictly descending and
  then reversed, is taken as sorted, and each further element is put into the sorted
  front at the place a binary search finds. (From 64 elements on V8 sorts several such
  runs and merges them; for a consistent comparator the result is the same.)
\<close>

definition sortCompare :: "('a \<Rightarrow> 'a \<Rightarrow> jsnum) \<Rightarrow> 'a \<Rightarrow> 'a \<Rightarrow> jsnum" where
  "sortCompare comparefn x y = (case comparefn x y of NaN \<Rightarrow> Number 0 | v \<Rightarrow> v)"

fun takeRun :: "('a \<Rightarrow> 'a \<Rightarrow> bool) \<Rightarrow> 'a \<Rightarrow> 'a list \<Rightarrow> 'a list \<times> 'a list" where
  \<comment> \<open>the elements that continue the run after \<open>previous\<close>, and the others\<close>
  "takeRun continues previous [] = ([], [])"
| "takeRun continues previous (x # xs) =
     (if continues x previous
      then (case takeRun continues x xs of (run, others) \<Rightarrow> (x # run, others))
      else ([], x # xs))"

fun countRunAndMakeAscending :: "('a \<Rightarrow> 'a \<Rightarrow> jsnum) \<Rightarrow> 'a list \<Rightarrow> 'a list \<times> 'a list" where
  \<comment> \<open>the run at the front, made ascending, and the elements after it\<close>
  "countRunAndMakeAscending comparefn [] = ([], [])"
| "countRunAndMakeAscending comparefn [a] = ([a], [])"
| "countRunAndMakeAscending comparefn (a # b # xs) =
     (if js_negative (sortCompare comparefn b a)
      then (case takeRun (\<lambda>x previous. js_negative (sortCompare comparefn x previous)) b xs of
              (run, others) \<Rightarrow> (rev (a # b # run), others))
      else (case takeRun (\<lambda>x previous. \<not> js_negative (sortCompare comparefn x previous)) b xs of
              (run, others) \<Rightarrow> (a # b # run, others)))"

function binarySearch ::
  "('a \<Rightarrow> 'a \<Rightarrow> jsnum) \<Rightarrow> 'a \<Rightarrow> 'a list \<Rightarrow> nat \<Rightarrow> nat \<Rightarrow> nat" where
  \<comment> \<open>the loop \<open>while (left < right)\<close> of the binary insertion\<close>
  "binarySearch comparefn pivot xs left right =
     (if left < right
      then (let mid = left + (right - left) div 2
            in if js_negative (sortCompare comparefn pivot (xs ! mid))
               then binarySearch comparefn pivot xs left mid
               else binarySearch comparefn pivot xs (mid + 1) right)
      else left)"
  by pat_completeness auto
termination
  by (relation "measure (\<lambda>(comparefn, pivot, xs, left, right). right - left)") auto

declare binarySearch.simps [simp del]

definition insertPivot :: "('a \<Rightarrow> 'a \<Rightarrow> jsnum) \<Rightarrow> 'a list \<Rightarrow> 'a \<Rightarrow> 'a list" where
  "insertPivot comparefn xs pivot =
     (let left = binarySearch comparefn pivot xs 0 (length xs)
      in take left xs @ pivot # drop left xs)"

definition js_sort :: "('a \<Rightarrow> 'a \<Rightarrow> jsnum) \<Rightarrow> 'a list \<Rightarrow> 'a list" where
  "js_sort comparefn xs =
     (case countRunAndMakeAscending comparefn xs of
        (run, others) \<Rightarrow> foldl (insertPivot comparefn) run others)"

subsection \<open>\<open>Set\<close> of strings\<close>

definition set_add :: "string list \<Rightarrow> string \<Rightarrow> string list" where
  \<comment> \<open>\<open>Set.prototype.add\<close>: insertion order is kept, an equal string is not added again\<close>
  "set_add acc x = (if x \<in> set acc then acc else acc @ [x])"

section \<open>Application state\<close>

text \<open>
  A tracked company with the fields the program reads after it has stored them (its
  type, dates and description are never read by the computations below). The state is
  the object \<open>appState\<close> together with the module variable \<open>jdaExtractedSkills\<close>.
\<close>

record company =
  cid :: nat
  name :: string
  role :: string
  requiredSkills :: "string list"
  location :: string
  isFavorite :: bool
  company_notes :: string

record app_state =
  companies :: "company list"
  currentView :: string
  currentCompany :: "company option"
  userSkills :: "string list"
  jdaExtractedSkills :: "string list"

section \<open>Forms\<close>

record company_form =
  form_companyName :: string
  form_role :: string
  form_skills :: string
  form_location :: string

definition handleAddCompany :: "nat \<Rightarrow> company_form \<Rightarrow> app_state \<Rightarrow> app_state" where
  \<comment> \<open>\<open>now\<close> is \<open>Date.now()\<close>; the new company is pushed and the companies view shown\<close>
  "handleAddCompany now formData s =
     (let newCompany =
        \<lparr> cid = now,
          name = form_companyName formData,
          role = form_role formData,
          requiredSkills =
            filter (\<lambda>s. s \<noteq> []) (map trim (split_comma (form_skills formData))),
          location =
            (if form_location formData = [] then ''Not specified''
             else form_location formData),
          isFavorite = False,
          company_notes = [] \<rparr>
      in s\<lparr> companies := companies s @ [newCompany], currentView := ''companies'' \<rparr>)"

definition handleUpdateSkills :: "string \<Rightarrow> app_state \<Rightarrow> app_state" where
  \<comment> \<open>the argument is the form's field \<open>skills\<close>; the list is replaced as a whole\<close>
  "handleUpdateSkills skills s =
     s\<lparr> userSkills := filter (\<lambda>s. s \<noteq> []) (map trim (split_comma skills)) \<rparr>"

section \<open>Dashboard, company detail, gap analysis and progress\<close>

definition allRequiredSkills :: "company list \<Rightarrow> string list" where
  \<comment> \<open>the \<open>Set\<close> filled by the two nested \<open>forEach\<close> loops, read in insertion order\<close>
  "allRequiredSkills cs = foldl (\<lambda>acc c. foldl set_add acc (requiredSkills c)) [] cs"

record dashboard_stats =
  totalCompanies :: nat
  favoriteCount :: nat
  skillsNeeded :: nat
  skillsAcquired :: nat
  overallProgress :: jsnum

definition renderDashboard :: "app_state \<Rightarrow> dashboard_stats \<times> app_state" where
  "renderDashboard s =
     (let allRequired = allRequiredSkills (companies s);
          needed = length (filter (\<lambda>skill. skill \<notin> set (userSkills s)) allRequired);
          totalSkillsNeeded = length allRequired;
          acquired = length (filter (\<lambda>skill. skill \<in> set (userSkills s)) allRequired)
      in (\<lparr> totalCompanies = length (companies s),
             favoriteCount = length (filter isFavorite (companies s)),
             skillsNeeded = needed,
             skillsAcquired = acquired,
             overallProgress =
               (if totalSkillsNeeded > 0 then percent acquired totalSkillsNeeded
                else Number 0) \<rparr>, s))"

record skill_split =
  proficientSkills :: "string list"
  neededSkills :: "string list"

definition viewCompanyDetail :: "nat \<Rightarrow> app_state \<Rightarrow> skill_split option \<times> app_state" where
  \<comment> \<open>an unknown id returns at once; otherwise the company becomes the current one\<close>
  "viewCompanyDetail companyId s =
     (case find (\<lambda>c. cid c = companyId) (companies s) of
        None \<Rightarrow> (None, s)
      | Some c \<Rightarrow>
          (Some \<lparr> proficientSkills =
                    filter (\<lambda>skill. skill \<in> set (userSkills s)) (requiredSkills c),
                  neededSkills =
                    filter (\<lambda>skill. skill \<notin> set (userSkills s)) (requiredSkills c) \<rparr>,
           s\<lparr> currentCompany := Some c \<rparr>))"

definition companyCount :: "company list \<Rightarrow> string \<Rightarrow> nat" where
  \<comment> \<open>the count printed on a skill's chip\<close>
  "companyCount cs skill =
     length (filter (\<lambda>c. toLowerCase skill \<in> set (map toLowerCase (requiredSkills c))) cs)"

record gap_analysis = skill_split +
  neededChips :: "(string \<times> nat) list"
  proficientChips :: "(string \<times> nat) list"
  skillReadiness :: jsnum

datatype gap_view = GapEmpty | GapNoRequiredSkills | GapAnalysis gap_analysis

definition renderSkillGapAnalysis :: "app_state \<Rightarrow> gap_view \<times> app_state" where
  "renderSkillGapAnalysis s =
     (if companies s = [] then (GapEmpty, s)
      else
        (let allRequired = allRequiredSkills (companies s);
             userSkillsLower = map toLowerCase (userSkills s);
             proficient =
               filter (\<lambda>skill. toLowerCase skill \<in> set userSkillsLower) allRequired;
             needed =
               filter (\<lambda>skill. toLowerCase skill \<notin> set userSkillsLower) allRequired
         in if allRequired = [] then (GapNoRequiredSkills, s)
            else
              (GapAnalysis
                 \<lparr> proficientSkills = proficient,
                   neededSkills = needed,
                   neededChips =
                     map (\<lambda>skill. (skill, companyCount (companies s) skill)) needed,
                   proficientChips =
                     map (\<lambda>skill. (skill, companyCount (companies s) skill)) proficient,
                   skillReadiness =
                     (let total = length proficient + length needed
                      in if total > 0 then percent (length proficient) total
                         else Number 0) \<rparr>, s)))"

record progress_item =
  company :: company
  totalSkills :: nat
  acquiredSkills :: nat
  percentage :: jsnum

definition progressItem :: "string list \<Rightarrow> company \<Rightarrow> progress_item" where
  \<comment> \<open>the function mapped over the companies in \<open>renderProgress\<close>\<close>
  "progressItem skills c =
     (let total = length (requiredSkills c);
          acquired = length (filter (\<lambda>skill. skill \<in> set skills) (requiredSkills c))
      in \<lparr> company = c,
           totalSkills = total,
           acquiredSkills = acquired,
           percentage = percent acquired total \<rparr>)"

datatype progress_view = ProgressEmpty | ProgressItems "progress_item list"

definition renderProgress :: "app_state \<Rightarrow> progress_view \<times> app_state" where
  \<comment> \<open>the sort is in place, on the array \<open>map\<close> has just built\<close>
  "renderProgress s =
     (if companies s = [] then (ProgressEmpty, s)
      else
        (ProgressItems
           (js_sort (\<lambda>a b. js_minus (percentage a) (percentage b))
              (map (progressItem (userSkills s)) (companies s))), s))"

section \<open>Job description analyzer\<close>

datatype tier = Low | Mid | High

record jda_result =
  noSkills :: bool
  extracted :: "string list"
  haveSkills :: "string list"
  needSkills :: "string list"
  score :: jsnum
  scoreClass :: tier

datatype jda_view = JDA_NoText | JDA_Result jda_result

definition analyzeJD :: "string \<Rightarrow> app_state \<Rightarrow> jda_view \<times> app_state" where
  \<comment> \<open>the argument is the value of the text area\<close>
  "analyzeJD jdaText s =
     (let text = trim jdaText
      in if text = [] then (JDA_NoText, s)
         else
           (let skills = extractSkillsFromText (Some text);
                s' = s\<lparr> jdaExtractedSkills := skills \<rparr>
            in if length skills = 0 then
                 (JDA_Result
                    \<lparr> noSkills = True, extracted = skills, haveSkills = [],
                      needSkills = [], score = Number 0, scoreClass = Low \<rparr>, s')
               else
                 (let userSkillsLower = map toLowerCase (userSkills s);
                      have = filter (\<lambda>x. toLowerCase x \<in> set userSkillsLower) skills;
                      need = filter (\<lambda>x. toLowerCase x \<notin> set userSkillsLower) skills;
                      sc = percent (length have) (length skills)
                  in (JDA_Result
                        \<lparr> noSkills = False, extracted = skills, haveSkills = have,
                          needSkills = need, score = sc,
                          scoreClass =
                            (if js_ge sc 70 then High
                             else if js_ge sc 40 then Mid else Low) \<rparr>, s'))))"

section \<open>The comparator as the specification words it\<close>

text \<open>
  The specification describes one operation \<open>compare\<close>: the required skills are
  deduplicated without regard to case, the first spelling of each being kept; each is
  matched when some possessed skill equals it without regard to case; the readiness is
  the rounded share of the matched ones, and 0 when there is none to match. The program
  has no such function; the definition below follows the specification and serves only
  to compare the program with it.
\<close>

definition spec_dedup :: "string list \<Rightarrow> string list" where
  "spec_dedup required =
     foldl (\<lambda>acc x. if toLowerCase x \<in> set (map toLowerCase acc) then acc else acc @ [x])
       [] required"

record gap_result =
  matched :: "string list"
  missing :: "string list"
  readinessPercent :: int

definition spec_percent :: "nat \<Rightarrow> nat \<Rightarrow> int" where
  \<comment> \<open>\<open>round(100 * m / t)\<close> in exact arithmetic, a half going up\<close>
  "spec_percent m t = (200 * int m + int t) div (2 * int t)"

definition spec_compare :: "string list \<Rightarrow> string list \<Rightarrow> gap_result" where
  "spec_compare required possessed =
     (let req = spec_dedup required;
          possessedLower = map toLowerCase possessed;
          m = filter (\<lambda>x. toLowerCase x \<in> set possessedLower) req;
          n = filter (\<lambda>x. toLowerCase x \<notin> set possessedLower) req;
          total = length m + length n
      in \<lparr> matched = m, missing = n,
           readinessPercent = (if total > 0 then spec_percent (length m) total else 0) \<rparr>)"

section \<open>Example data\<close>

definition initial_state :: app_state where
  \<comment> \<open>the state the script starts with\<close>
  "initial_state =
     \<lparr> companies = [], currentView = ''dashboard'', currentCompany = None,
       userSkills = [], jdaExtractedSkills = [] \<rparr>"

definition tracked :: "nat \<Rightarrow> string \<Rightarrow> string list \<Rightarrow> company" where
  \<comment> \<open>a company as the tracker stores it, with the given id, name and required skills\<close>
  "tracked i n skills =
     \<lparr> cid = i, name = n, role = ''Developer'', requiredSkills = skills,
       location = ''Not specified'', isFavorite = False, company_notes = [] \<rparr>"

definition tracking :: "company list \<Rightarrow> string list \<Rightarrow> app_state" where
  "tracking cs skills = initial_state\<lparr> companies := cs, userSkills := skills \<rparr>"

definition jd_ten_skills :: string where
  \<comment> \<open>a text in which exactly ten vocabulary entries occur\<close>
  "jd_ten_skills = ''c r go java javascript git github rest react vue''"

definition seven_known :: "string list" where
  "seven_known = [''javascript'', ''java'', ''c'', ''go'', ''r'', ''react'', ''vue'']"

definition jd_ten_result :: jda_result where
  \<comment> \<open>what the analyzer shows for \<open>jd_ten_skills\<close> to a user with \<open>seven_known\<close>\<close>
  "jd_ten_result =
     \<lparr> noSkills = False,
       extracted = [''JavaScript'', ''Java'', ''C'', ''Go'', ''R'', ''React'', ''Vue'',
                    ''Git'', ''GitHub'', ''REST''],
       haveSkills = [''JavaScript'', ''Java'', ''C'', ''Go'', ''R'', ''React'', ''Vue''],
       needSkills = [''Git'', ''GitHub'', ''REST''],
       score = Number 70, scoreClass = High \<rparr>"

definition jd_five_skills :: string where
  \<comment> \<open>a text in which exactly five vocabulary entries occur\<close>
  "jd_five_skills = ''c r go git github''"

definition two_known :: "string list" where
  "two_known = [''c'', ''r'']"

definition jd_five_result :: jda_result where
  "jd_five_result =
     \<lparr> noSkills = False,
       extracted = [''C'', ''Go'', ''R'', ''Git'', ''GitHub''],
       haveSkills = [''C'', ''R''],
       needSkills = [''Go'', ''Git'', ''GitHub''],
       score = Number 40, scoreClass = Mid \<rparr>"

definition jd_eighteen_skills :: string where
  \<comment> \<open>a text in which exactly eighteen vocabulary entries occur\<close>
  "jd_eighteen_skills =
     ''c r go java javascript git github rest react vue aws gcp php html css nlp llm oop''"

definition jd_eighteen_result :: jda_result where
  "jd_eighteen_result =
     \<lparr> noSkills = False,
       extracted = [''JavaScript'', ''Java'', ''C'', ''Go'', ''PHP'', ''R'', ''React'', ''Vue'',
                    ''HTML'', ''CSS'', ''AWS'', ''GCP'', ''NLP'', ''LLM'', ''Git'', ''GitHub'',
                    ''REST'', ''OOP''],
       haveSkills = [''JavaScript'', ''Java'', ''C'', ''Go'', ''R'', ''React'', ''Vue''],
       needSkills = [''PHP'', ''HTML'', ''CSS'', ''AWS'', ''GCP'', ''NLP'', ''LLM'', ''Git'',
                     ''GitHub'', ''REST'', ''OOP''],
       score = Number 39, scoreClass = Low \<rparr>"

definition no_skills_result :: jda_result where
  \<comment> \<open>what the analyzer shows when no vocabulary entry occurs in the text\<close>
  "no_skills_result =
     \<lparr> noSkills = True, extracted = [], haveSkills = [], needSkills = [],
       score = Number 0, scoreClass = Low \<rparr>"

section \<open>Substrings and lower case\<close>

lemma startsWith_iff: "startsWith t p \<longleftrightarrow> (\<exists>post. t = p @ post)"
  by (induction t p rule: startsWith.induct) auto

lemma js_includes_iff: "js_includes t p \<longleftrightarrow> (\<exists>pre post. t = pre @ p @ post)"
proof (induction t)
  case Nil
  then show ?case by auto
next
  case (Cons c cs)
  have "(\<exists>pre post. c # cs = pre @ p @ post) \<longleftrightarrow>
        (\<exists>post. c # cs = p @ post) \<or> (\<exists>pre post. cs = pre @ p @ post)"
    by (auto simp: Cons_eq_append_conv)
  with Cons show ?case
    by (simp add: startsWith_iff)
qed

lemma toLowerCase_append: "toLowerCase (a @ b) = toLowerCase a @ toLowerCase b"
  by (simp add: toLowerCase_def)

lemma js_includes_lower:
  "js_includes t p \<Longrightarrow> js_includes (toLowerCase t) (toLowerCase p)"
  unfolding js_includes_iff by (metis toLowerCase_append)

lemma js_includes_trans:
  "js_includes t b \<Longrightarrow> js_includes b a \<Longrightarrow> js_includes t a"
  unfolding js_includes_iff by (metis append.assoc)

section \<open>The extractor\<close>

lemma KNOWN_SKILLS_nonempty: "[] \<notin> set KNOWN_SKILLS"
  by (simp add: KNOWN_SKILLS_def)

lemma KNOWN_SKILLS_distinct: "distinct KNOWN_SKILLS"
  by code_simp

lemma KNOWN_SKILLS_distinct_lower: "distinct (map toLowerCase KNOWN_SKILLS)"
  by code_simp

lemma extract_Some:
  "extractSkillsFromText (Some t) =
     filter (\<lambda>skill. js_includes (toLowerCase t) (toLowerCase skill)) KNOWN_SKILLS"
proof (cases "t = []")
  case True
  have "\<forall>k \<in> set KNOWN_SKILLS. \<not> js_includes [] (toLowerCase k)"
    using KNOWN_SKILLS_nonempty by (auto simp: toLowerCase_def)
  then have "filter (\<lambda>skill. js_includes [] (toLowerCase skill)) KNOWN_SKILLS = []"
    by (simp add: filter_empty_conv)
  with True show ?thesis
    by (simp add: extractSkillsFromText_def toLowerCase_def)
next
  case False
  then show ?thesis
    by (simp add: extractSkillsFromText_def)
qed

text \<open>
  C5. For \<open>null\<close> and for the empty string the extractor returns the empty list. For
  every text it returns the vocabulary filtered, in the vocabulary's order and casing,
  by the test that the lower-cased entry occurs as a substring of the lower-cased text;
  no entry is returned twice.
\<close>

theorem C5_extract_is_vocabulary_filter:
  "extractSkillsFromText None = [] \<and>
   extractSkillsFromText (Some []) = [] \<and>
   extractSkillsFromText (Some t) =
     filter (\<lambda>skill. \<exists>pre post. toLowerCase t = pre @ toLowerCase skill @ post)
       KNOWN_SKILLS \<and>
   distinct (extractSkillsFromText (Some t))"
proof -
  have "extractSkillsFromText None = []" and "extractSkillsFromText (Some []) = []"
    by (simp_all add: extractSkillsFromText_def)
  moreover have "distinct (extractSkillsFromText (Some t))"
    by (simp add: extract_Some KNOWN_SKILLS_distinct)
  moreover have "extractSkillsFromText (Some t) =
     filter (\<lambda>skill. \<exists>pre post. toLowerCase t = pre @ toLowerCase skill @ post)
       KNOWN_SKILLS"
    by (simp add: extract_Some js_includes_iff)
  ultimately show ?thesis
    by blast
qed

theorem C5_extract_is_vocabulary_filter_witness:
  "extractSkillsFromText (Some ''Flask with MySQL on AWS'') =
     [''Flask'', ''MySQL'', ''AWS''] \<and>
   [''Flask'', ''MySQL'', ''AWS''] =
     filter (\<lambda>skill. \<exists>pre post.
               toLowerCase ''Flask with MySQL on AWS'' = pre @ toLowerCase skill @ post)
       KNOWN_SKILLS \<and>
   distinct (extractSkillsFromText (Some ''Flask with MySQL on AWS''))"
proof -
  have e: "extractSkillsFromText (Some ''Flask with MySQL on AWS'') =
     [''Flask'', ''MySQL'', ''AWS'']"
    by code_simp
  note c = C5_extract_is_vocabulary_filter [of "''Flask with MySQL on AWS''"]
  from c have f: "extractSkillsFromText (Some ''Flask with MySQL on AWS'') =
     filter (\<lambda>skill. \<exists>pre post.
               toLowerCase ''Flask with MySQL on AWS'' = pre @ toLowerCase skill @ post)
       KNOWN_SKILLS"
    by blast
  from c have d: "distinct (extractSkillsFromText (Some ''Flask with MySQL on AWS''))"
    by blast
  from f have "[''Flask'', ''MySQL'', ''AWS''] =
     filter (\<lambda>skill. \<exists>pre post.
               toLowerCase ''Flask with MySQL on AWS'' = pre @ toLowerCase skill @ post)
       KNOWN_SKILLS"
    unfolding e .
  with e d show ?thesis
    by blast
qed

text \<open>
  C8. When a vocabulary entry \<open>A\<close> is a substring of a vocabulary entry \<open>B\<close> and the
  text contains \<open>B\<close>, the extractor returns both: the shorter nested match is not
  suppressed.
\<close>

theorem C8_nested_entries_both_extracted:
  assumes "A \<in> set KNOWN_SKILLS" and "B \<in> set KNOWN_SKILLS"
    and "js_includes B A" and "js_includes t B"
  shows "A \<in> set (extractSkillsFromText (Some t)) \<and>
         B \<in> set (extractSkillsFromText (Some t))"
proof -
  have "js_includes (toLowerCase t) (toLowerCase B)"
    using assms(4) by (rule js_includes_lower)
  moreover have "js_includes (toLowerCase t) (toLowerCase A)"
    using assms(3,4) js_includes_lower js_includes_trans by blast
  ultimately show ?thesis
    using assms(1,2) by (simp add: extract_Some)
qed

theorem C8_nested_entries_both_extracted_witness:
  "''React'' \<in> set KNOWN_SKILLS \<and> ''React Native'' \<in> set KNOWN_SKILLS \<and>
   js_includes ''React Native'' ''React'' \<and>
   js_includes ''Senior React Native engineer'' ''React Native'' \<and>
   ''React'' \<in> set (extractSkillsFromText (Some ''Senior React Native engineer'')) \<and>
   ''React Native'' \<in> set (extractSkillsFromText (Some ''Senior React Native engineer''))"
proof -
  have h1: "''React'' \<in> set KNOWN_SKILLS" and h2: "''React Native'' \<in> set KNOWN_SKILLS"
    by (simp_all add: KNOWN_SKILLS_def)
  have h3: "js_includes ''React Native'' ''React''"
    and h4: "js_includes ''Senior React Native engineer'' ''React Native''"
    by simp_all
  from C8_nested_entries_both_extracted [OF h1 h2 h3 h4] h1 h2 h3 h4 show ?thesis
    by blast
qed

section \<open>Splitting and trimming\<close>

lemma split_comma_not_Nil: "split_comma s \<noteq> []"
  by (induction s) (auto split: list.splits)

lemma join_comma_Cons_Cons: "join_comma ((c # t) # ts) = c # join_comma (t # ts)"
  by (cases ts) simp_all

lemma join_split_comma: "join_comma (split_comma s) = s"
proof (induction s)
  case Nil
  then show ?case by simp
next
  case (Cons c cs)
  obtain t ts where sp: "split_comma cs = t # ts"
    using split_comma_not_Nil by (cases "split_comma cs") auto
  with Cons show ?case
    by (simp add: join_comma_Cons_Cons)
qed

lemma split_comma_no_comma: "t \<in> set (split_comma s) \<Longrightarrow> CHR '','' \<notin> set t"
  by (induction s arbitrary: t) (auto split: if_splits list.splits)

lemma rev_drop_take:
  "xs = rev (dropWhile P (rev xs)) @ rev (takeWhile P (rev xs))"
  by (metis rev_append rev_rev_ident takeWhile_dropWhile_id)

lemma trim_decompose:
  "\<exists>a b. t = a @ trim t @ b \<and> list_all isWhiteSpace a \<and> list_all isWhiteSpace b"
proof -
  define u where "u = dropWhile isWhiteSpace t"
  have 1: "t = takeWhile isWhiteSpace t @ u"
    by (simp add: u_def)
  have "u = rev (dropWhile isWhiteSpace (rev u)) @ rev (takeWhile isWhiteSpace (rev u))"
    by (rule rev_drop_take)
  then have 2: "u = trim t @ rev (takeWhile isWhiteSpace (rev u))"
    by (simp add: trim_def trimStart_def u_def)
  have 3: "list_all isWhiteSpace (takeWhile isWhiteSpace t)"
    and 4: "list_all isWhiteSpace (rev (takeWhile isWhiteSpace (rev u)))"
    by (auto simp: list_all_iff dest: set_takeWhileD)
  from 1 2 have "t = takeWhile isWhiteSpace t @ trim t @ rev (takeWhile isWhiteSpace (rev u))"
    by simp
  with 3 4 show ?thesis
    by blast
qed

lemma trim_ends:
  assumes "trim t \<noteq> []"
  shows "\<not> isWhiteSpace (hd (trim t)) \<and> \<not> isWhiteSpace (last (trim t))"
proof -
  define u where "u = dropWhile isWhiteSpace t"
  define w where "w = dropWhile isWhiteSpace (rev u)"
  have tw: "trim t = rev w"
    by (simp add: trim_def trimStart_def u_def w_def)
  with assms have wne: "w \<noteq> []"
    by simp
  then have "\<not> isWhiteSpace (hd w)"
    unfolding w_def by (rule hd_dropWhile)
  then have l: "\<not> isWhiteSpace (last (trim t))"
    using wne by (simp add: tw last_rev)
  have "u = rev w @ rev (takeWhile isWhiteSpace (rev u))"
    unfolding w_def by (rule rev_drop_take)
  then have "hd u = hd (rev w)" and "u \<noteq> []"
    using wne by (metis hd_append2 rev_is_Nil_conv, metis append_is_Nil_conv rev_is_Nil_conv)
  moreover have "\<not> isWhiteSpace (hd u)"
    using \<open>u \<noteq> []\<close> unfolding u_def by (rule hd_dropWhile)
  ultimately show ?thesis
    using l by (simp add: tw)
qed

lemmas string_eval = trim_def trimStart_def isWhiteSpace_def

text \<open>
  C10. The skills field of either form is split at the commas, each piece is trimmed
  and the empty pieces are dropped; the result replaces \<open>userSkills\<close>, respectively
  becomes the \<open>requiredSkills\<close> of the one company appended. The pieces are the
  comma-free strings whose comma-join is the input; trimming removes white space (the
  no-break space included) at the two ends only and leaves none there. No empty string
  enters the state, the order is the input's, and repeated tokens stay.
\<close>

theorem C10_form_skills_parsed:
  "userSkills (handleUpdateSkills v s) =
     filter (\<lambda>t. t \<noteq> []) (map trim (split_comma v)) \<and>
   companies (handleUpdateSkills v s) = companies s \<and>
   (\<exists>c. companies (handleAddCompany now f s) = companies s @ [c] \<and>
        requiredSkills c =
          filter (\<lambda>t. t \<noteq> []) (map trim (split_comma (form_skills f)))) \<and>
   userSkills (handleAddCompany now f s) = userSkills s \<and>
   join_comma (split_comma v) = v \<and>
   (\<forall>t \<in> set (split_comma v). CHR '','' \<notin> set t) \<and>
   (\<forall>t. \<exists>a b. t = a @ trim t @ b \<and> list_all isWhiteSpace a \<and> list_all isWhiteSpace b) \<and>
   (\<forall>t. trim t \<noteq> [] \<longrightarrow>
      \<not> isWhiteSpace (hd (trim t)) \<and> \<not> isWhiteSpace (last (trim t))) \<and>
   [] \<notin> set (userSkills (handleUpdateSkills v s)) \<and>
   (\<forall>c \<in> set (companies (handleAddCompany now f s)) - set (companies s).
      [] \<notin> set (requiredSkills c))"
proof -
  have "userSkills (handleUpdateSkills v s) =
      filter (\<lambda>t. t \<noteq> []) (map trim (split_comma v))"
    and "companies (handleUpdateSkills v s) = companies s"
    and "userSkills (handleAddCompany now f s) = userSkills s"
    and "[] \<notin> set (userSkills (handleUpdateSkills v s))"
    by (simp_all add: handleUpdateSkills_def handleAddCompany_def Let_def)
  moreover have "\<exists>c. companies (handleAddCompany now f s) = companies s @ [c] \<and>
        requiredSkills c =
          filter (\<lambda>t. t \<noteq> []) (map trim (split_comma (form_skills f)))"
    by (simp add: handleAddCompany_def Let_def)
  moreover have "\<forall>c \<in> set (companies (handleAddCompany now f s)) - set (companies s).
      [] \<notin> set (requiredSkills c)"
    by (auto simp: handleAddCompany_def Let_def)
  moreover have "join_comma (split_comma v) = v"
    by (rule join_split_comma)
  moreover have "\<forall>t \<in> set (split_comma v). CHR '','' \<notin> set t"
    using split_comma_no_comma by blast
  moreover have
    "\<forall>t. \<exists>a b. t = a @ trim t @ b \<and> list_all isWhiteSpace a \<and> list_all isWhiteSpace b"
    using trim_decompose by blast
  moreover have "\<forall>t. trim t \<noteq> [] \<longrightarrow>
      \<not> isWhiteSpace (hd (trim t)) \<and> \<not> isWhiteSpace (last (trim t))"
    using trim_ends by blast
  ultimately show ?thesis
    by blast
qed

theorem C10_form_skills_parsed_witness:
  "userSkills (handleUpdateSkills ''Python, python ,,Python '' initial_state) =
     [''Python'', ''python'', ''Python''] \<and>
   userSkills (handleUpdateSkills (''Python'' @ [CHR 0xA0] @ '','' @ [CHR 0xA0] @ ''Go'')
                 initial_state) =
     [''Python'', ''Go'']"
proof -
  have "filter (\<lambda>t. t \<noteq> []) (map trim (split_comma ''Python, python ,,Python '')) =
     [''Python'', ''python'', ''Python'']"
    by (simp add: string_eval)
  with C10_form_skills_parsed [of "''Python, python ,,Python ''" initial_state]
  have 1: "userSkills (handleUpdateSkills ''Python, python ,,Python '' initial_state) =
     [''Python'', ''python'', ''Python'']"
    by simp
  have "filter (\<lambda>t. t \<noteq> [])
      (map trim (split_comma (''Python'' @ [CHR 0xA0] @ '','' @ [CHR 0xA0] @ ''Go''))) =
     [''Python'', ''Go'']"
    by (simp add: string_eval)
  with C10_form_skills_parsed [of "''Python'' @ [CHR 0xA0] @ '','' @ [CHR 0xA0] @ ''Go''"
      initial_state]
  have 2: "userSkills (handleUpdateSkills (''Python'' @ [CHR 0xA0] @ '','' @ [CHR 0xA0] @ ''Go'')
                 initial_state) =
     [''Python'', ''Go'']"
    by simp
  from 1 2 show ?thesis
    by blast
qed

section \<open>Readiness figures\<close>

lemmas percent_eval = percent_def js_div_def nearest_double_def find_scale.simps two52_def
  round_half_even_def Let_def

lemma round_half_even_le:
  assumes "0 < d" and "n \<le> c * d"
  shows "round_half_even n d \<le> c"
proof (cases "n div d < c")
  case True
  then show ?thesis
    by (simp add: round_half_even_def Let_def)
next
  case False
  have "n div d \<le> c"
    using assms by (metis div_le_mono div_mult_self_is_m)
  with False have q: "n div d = c" by simp
  then have "c * d \<le> n"
    by (metis div_times_less_eq_dividend)
  with assms have "n = c * d" by simp
  then have "n mod d = 0" by simp
  with assms q show ?thesis
    by (simp add: round_half_even_def Let_def)
qed

lemma nearest_double_le:
  assumes "0 < d" and "n \<le> c * d" and "nearest_double n d = Finite m k"
  shows "m \<le> c * 2 ^ k"
proof (cases "n = 0")
  case True
  with assms(3) show ?thesis
    by (simp add: nearest_double_def)
next
  case False
  from assms(2) have "n * 2 ^ k \<le> (c * 2 ^ k) * d"
    by (simp add: mult.assoc mult.left_commute mult.commute)
  with assms(1) have "round_half_even (n * 2 ^ k) d \<le> c * 2 ^ k"
    by (rule round_half_even_le)
  with False assms(3) show ?thesis
    by (auto simp: nearest_double_def Let_def)
qed

lemma nearest_double_Finite: "\<exists>m k. nearest_double n d = Finite m k"
  by (simp add: nearest_double_def Let_def)

lemma percent_range:
  assumes "0 < t" and "a \<le> t"
  shows "\<exists>p. percent a t = Number p \<and> 0 \<le> p \<and> p \<le> 100"
proof -
  obtain m k where d: "nearest_double a t = Finite m k"
    using nearest_double_Finite by blast
  from assms have "a \<le> 1 * t" by simp
  with assms(1) have mk: "m \<le> 1 * 2 ^ k"
    using d by (rule nearest_double_le)
  obtain m' k' where d': "nearest_double (m * 100) (2 ^ k) = Finite m' k'"
    using nearest_double_Finite by blast
  have "m * 100 \<le> 100 * 2 ^ k"
    using mk by simp
  with d' have mk': "m' \<le> 100 * 2 ^ k'"
    using nearest_double_le [of "2 ^ k" "m * 100" 100 m' k'] by simp
  then have "2 * m' + 2 ^ k' \<le> 201 * 2 ^ k'"
    by simp
  then have "(2 * m' + 2 ^ k') div 2 ^ (k' + 1) \<le> (201 * 2 ^ k') div 2 ^ (k' + 1)"
    by (rule div_le_mono)
  also have "(201 * 2 ^ k') div 2 ^ (k' + 1) = (100::nat)"
    by simp
  finally have "(2 * m' + 2 ^ k') div 2 ^ (k' + 1) \<le> 100" .
  with assms d d' show ?thesis
    by (simp add: percent_def js_div_def)
qed

lemma percent_zero_total: "percent 0 0 = NaN"
  by (simp add: percent_def js_div_def)

lemma percent_Number: "0 < t \<Longrightarrow> \<exists>p. percent a t = Number p"
  using nearest_double_Finite [of a t]
  by (auto simp: percent_def js_div_def) (metis Math_round.simps(1) nearest_double_Finite)

lemma round_half_even_exact: "0 < d \<Longrightarrow> round_half_even (c * d) d = c"
  by (simp add: round_half_even_def)

lemma nearest_double_exact:
  "0 < d \<Longrightarrow> \<exists>k. nearest_double (c * d) d = Finite (c * 2 ^ k) k"
proof (cases "c = 0")
  case True
  then show ?thesis
    by (auto simp: nearest_double_def intro: exI [of _ 0])
next
  case False
  assume "0 < d"
  then have "round_half_even ((c * 2 ^ k) * d) d = c * 2 ^ k" for k
    by (rule round_half_even_exact)
  then have "round_half_even (c * d * 2 ^ k) d = c * 2 ^ k" for k
    by (simp add: mult.assoc mult.left_commute mult.commute)
  with False \<open>0 < d\<close> show ?thesis
    by (simp add: nearest_double_def Let_def)
qed

lemma percent_all: "0 < t \<Longrightarrow> percent t t = Number 100"
proof -
  assume t: "0 < t"
  then obtain k where k: "nearest_double t t = Finite (2 ^ k) k"
    using nearest_double_exact [of t 1] by auto
  obtain k' where k': "nearest_double (100 * 2 ^ k) (2 ^ k) = Finite (100 * 2 ^ k') k'"
    using nearest_double_exact [of "2 ^ k" 100] by auto
  have "(2 * (100 * 2 ^ k') + 2 ^ k') div 2 ^ (k' + 1) = (100::nat)"
  proof -
    have "2 * (100 * 2 ^ k') + 2 ^ k' = (201::nat) * 2 ^ k'"
      by simp
    then show ?thesis
      by simp
  qed
  with t k k' show ?thesis
    by (simp add: percent_def js_div_def mult.commute)
qed

lemma percent_none: "0 < t \<Longrightarrow> percent 0 t = Number 0"
  by (simp add: percent_def js_div_def nearest_double_def)

lemma percent_23_40: "percent 23 40 = Number 57"
  by (simp add: percent_eval)

text \<open>
  The quotient is rounded to a double before it is multiplied: for 23 matched skills
  of 40 the product is just below 57.5 and the figure is 57, where the exact share
  57.5 rounds to 58.
\<close>

theorem score_rounds_in_double:
  "percent 23 40 = Number 57 \<and> spec_percent 23 40 = 58"
  by (simp add: percent_23_40 spec_percent_def)

section \<open>The analyzer's text\<close>

lemma isWhiteSpace_toLowerChar: "isWhiteSpace (toLowerChar c) = isWhiteSpace c"
  by (simp add: isWhiteSpace_def toLowerChar_def upperCaseLetters_def lowerCaseLetters_def)

lemma trimStart_toLowerCase: "trimStart (toLowerCase t) = toLowerCase (trimStart t)"
  by (simp add: trimStart_def toLowerCase_def dropWhile_map comp_def isWhiteSpace_toLowerChar)

lemma trim_toLowerCase: "trim (toLowerCase t) = toLowerCase (trim t)"
proof -
  have r: "rev (toLowerCase u) = toLowerCase (rev u)" for u
    by (simp add: toLowerCase_def rev_map)
  show ?thesis
    by (simp add: trim_def trimStart_toLowerCase r)
qed

lemma dropWhile_keeps_occurrence:
  assumes "p \<noteq> []" and "\<not> P (hd p)"
  shows "\<exists>pre'. dropWhile P (pre @ p @ post) = pre' @ p @ post"
proof (cases "\<forall>x \<in> set pre. P x")
  case True
  from assms have "dropWhile P (p @ post) = p @ post"
    by (cases p) simp_all
  with True have "dropWhile P (pre @ p @ post) = [] @ p @ post"
    by (simp add: dropWhile_append)
  then show ?thesis by blast
next
  case False
  then have "dropWhile P (pre @ p @ post) = dropWhile P pre @ p @ post"
    by (auto simp: dropWhile_append)
  then show ?thesis by blast
qed

lemma js_includes_trim:
  assumes "p \<noteq> []" and "\<not> isWhiteSpace (hd p)" and "\<not> isWhiteSpace (last p)"
  shows "js_includes (trim u) p \<longleftrightarrow> js_includes u p"
proof
  assume "js_includes (trim u) p"
  then obtain pre post where "trim u = pre @ p @ post"
    unfolding js_includes_iff by blast
  moreover obtain a b where "u = a @ trim u @ b"
    using trim_decompose by blast
  ultimately have "u = (a @ pre) @ p @ (post @ b)"
    by simp
  then show "js_includes u p"
    unfolding js_includes_iff by blast
next
  assume "js_includes u p"
  then obtain pre post where u: "u = pre @ p @ post"
    unfolding js_includes_iff by blast
  obtain pre' where 1: "trimStart u = pre' @ p @ post"
    unfolding trimStart_def u
    using dropWhile_keeps_occurrence [of p isWhiteSpace pre post] assms(1,2) by blast
  have "rev p \<noteq> []" and "\<not> isWhiteSpace (hd (rev p))"
    using assms by (simp_all add: hd_rev)
  then obtain post' where "dropWhile isWhiteSpace (rev post @ rev p @ rev pre') = post' @ rev p @ rev pre'"
    using dropWhile_keeps_occurrence [of "rev p" isWhiteSpace "rev post" "rev pre'"] by blast
  with 1 have "trim u = pre' @ p @ rev post'"
    by (simp add: trim_def trimStart_def)
  then show "js_includes (trim u) p"
    unfolding js_includes_iff by blast
qed

lemma KNOWN_SKILLS_trimmed:
  "\<forall>k \<in> set KNOWN_SKILLS. toLowerCase k \<noteq> [] \<and> \<not> isWhiteSpace (hd (toLowerCase k)) \<and>
     \<not> isWhiteSpace (last (toLowerCase k))"
  by code_simp

lemma extract_trim: "extractSkillsFromText (Some (trim t)) = extractSkillsFromText (Some t)"
proof -
  have "js_includes (toLowerCase (trim t)) (toLowerCase k) \<longleftrightarrow>
        js_includes (toLowerCase t) (toLowerCase k)" if "k \<in> set KNOWN_SKILLS" for k
    using that KNOWN_SKILLS_trimmed js_includes_trim [of "toLowerCase k" "toLowerCase t"]
    by (simp add: trim_toLowerCase)
  then show ?thesis
    unfolding extract_Some by (auto intro: filter_cong)
qed

text \<open>
  C6. Whenever the analyzer shows a result, its score is an integer and the class of
  the score circle is \<open>high\<close> exactly from 70 up, \<open>mid\<close> exactly from 40 to 69, and
  \<open>low\<close> exactly below 40.
\<close>

theorem C6_tier_boundaries:
  assumes "analyzeJD jdaText s = (JDA_Result r, s')"
  shows "\<exists>p. score r = Number p \<and>
     (scoreClass r = High \<longleftrightarrow> 70 \<le> p) \<and>
     (scoreClass r = Mid \<longleftrightarrow> 40 \<le> p \<and> p < 70) \<and>
     (scoreClass r = Low \<longleftrightarrow> p < 40)"
proof (cases "extractSkillsFromText (Some (trim jdaText)) = []")
  case True
  with assms have "score r = Number 0" and "scoreClass r = Low"
    by (auto simp: analyzeJD_def Let_def split: if_splits)
  then show ?thesis by simp
next
  case False
  define skills where "skills = extractSkillsFromText (Some (trim jdaText))"
  define hv where
    "hv = filter (\<lambda>x. toLowerCase x \<in> set (map toLowerCase (userSkills s))) skills"
  from False have "0 < length skills"
    by (simp add: skills_def)
  then obtain p where p: "percent (length hv) (length skills) = Number p"
    using percent_Number by blast
  from assms False have "score r = percent (length hv) (length skills)"
    and "scoreClass r =
      (if js_ge (percent (length hv) (length skills)) 70 then High
       else if js_ge (percent (length hv) (length skills)) 40 then Mid else Low)"
    by (auto simp: analyzeJD_def Let_def skills_def hv_def split: if_splits)
  with p show ?thesis
    by auto
qed

lemma toLowerChar_printable:
  "toLowerChar (CHR ''A'') = CHR ''a'' \<and>
   toLowerChar (CHR ''B'') = CHR ''b'' \<and>
   toLowerChar (CHR ''C'') = CHR ''c'' \<and>
   toLowerChar (CHR ''D'') = CHR ''d'' \<and>
   toLowerChar (CHR ''E'') = CHR ''e'' \<and>
   toLowerChar (CHR ''F'') = CHR ''f'' \<and>
   toLowerChar (CHR ''G'') = CHR ''g'' \<and>
   toLowerChar (CHR ''H'') = CHR ''h'' \<and>
   toLowerChar (CHR ''I'') = CHR ''i'' \<and>
   toLowerChar (CHR ''J'') = CHR ''j'' \<and>
   toLowerChar (CHR ''K'') = CHR ''k'' \<and>
   toLowerChar (CHR ''L'') = CHR ''l'' \<and>
   toLowerChar (CHR ''M'') = CHR ''m'' \<and>
   toLowerChar (CHR ''N'') = CHR ''n'' \<and>
   toLowerChar (CHR ''O'') = CHR ''o'' \<and>
   toLowerChar (CHR ''P'') = CHR ''p'' \<and>
   toLowerChar (CHR ''Q'') = CHR ''q'' \<and>
   toLowerChar (CHR ''R'') = CHR ''r'' \<and>
   toLowerChar (CHR ''S'') = CHR ''s'' \<and>
   toLowerChar (CHR ''T'') = CHR ''t'' \<and>
   toLowerChar (CHR ''U'') = CHR ''u'' \<and>
   toLowerChar (CHR ''V'') = CHR ''v'' \<and>
   toLowerChar (CHR ''W'') = CHR ''w'' \<and>
   toLowerChar (CHR ''X'') = CHR ''x'' \<and>
   toLowerChar (CHR ''Y'') = CHR ''y'' \<and>
   toLowerChar (CHR ''Z'') = CHR ''z'' \<and>
   toLowerChar (CHR ''a'') = CHR ''a'' \<and>
   toLowerChar (CHR ''b'') = CHR ''b'' \<and>
   toLowerChar (CHR ''c'') = CHR ''c'' \<and>
   toLowerChar (CHR ''d'') = CHR ''d'' \<and>
   toLowerChar (CHR ''e'') = CHR ''e'' \<and>
   toLowerChar (CHR ''f'') = CHR ''f'' \<and>
   toLowerChar (CHR ''g'') = CHR ''g'' \<and>
   toLowerChar (CHR ''h'') = CHR ''h'' \<and>
   toLowerChar (CHR ''i'') = CHR ''i'' \<and>
   toLowerChar (CHR ''j'') = CHR ''j'' \<and>
   toLowerChar (CHR ''k'') = CHR ''k'' \<and>
   toLowerChar (CHR ''l'') = CHR ''l'' \<and>
   toLowerChar (CHR ''m'') = CHR ''m'' \<and>
   toLowerChar (CHR ''n'') = CHR ''n'' \<and>
   toLowerChar (CHR ''o'') = CHR ''o'' \<and>
   toLowerChar (CHR ''p'') = CHR ''p'' \<and>
   toLowerChar (CHR ''q'') = CHR ''q'' \<and>
   toLowerChar (CHR ''r'') = CHR ''r'' \<and>
   toLowerChar (CHR ''s'') = CHR ''s'' \<and>
   toLowerChar (CHR ''t'') = CHR ''t'' \<and>
   toLowerChar (CHR ''u'') = CHR ''u'' \<and>
   toLowerChar (CHR ''v'') = CHR ''v'' \<and>
   toLowerChar (CHR ''w'') = CHR ''w'' \<and>
   toLowerChar (CHR ''x'') = CHR ''x'' \<and>
   toLowerChar (CHR ''y'') = CHR ''y'' \<and>
   toLowerChar (CHR ''z'') = CHR ''z'' \<and>
   toLowerChar (CHR ''0'') = CHR ''0'' \<and>
   toLowerChar (CHR ''1'') = CHR ''1'' \<and>
   toLowerChar (CHR ''2'') = CHR ''2'' \<and>
   toLowerChar (CHR ''3'') = CHR ''3'' \<and>
   toLowerChar (CHR ''4'') = CHR ''4'' \<and>
   toLowerChar (CHR ''5'') = CHR ''5'' \<and>
   toLowerChar (CHR ''6'') = CHR ''6'' \<and>
   toLowerChar (CHR ''7'') = CHR ''7'' \<and>
   toLowerChar (CHR ''8'') = CHR ''8'' \<and>
   toLowerChar (CHR ''9'') = CHR ''9'' \<and>
   toLowerChar (CHR '' '') = CHR '' '' \<and>
   toLowerChar (CHR ''.'') = CHR ''.'' \<and>
   toLowerChar (CHR ''+'') = CHR ''+'' \<and>
   toLowerChar (CHR ''#'') = CHR ''#'' \<and>
   toLowerChar (CHR ''/'') = CHR ''/'' \<and>
   toLowerChar (CHR ''-'') = CHR ''-'' \<and>
   toLowerChar (CHR '','') = CHR '',''"
  by code_simp

lemmas lower_eval = toLowerCase_def toLowerChar_printable

lemmas tower = numeral_2_eq_2 [symmetric]

lemmas state_eval = tracking_def tracked_def initial_state_def

lemma percent_7_10: "percent 7 10 = Number 70"
  by (simp add: percent_eval)

lemma percent_2_3: "percent 2 3 = Number 67"
  by (simp add: percent_eval)

lemma percent_1_1: "percent (Suc 0) (Suc 0) = Number 100"
  by (simp add: percent_eval)

lemma percent_1_2: "percent (Suc 0) 2 = Number 50"
  by (simp add: percent_eval)

lemma percent_0_1: "percent 0 (Suc 0) = Number 0"
  by (simp add: percent_eval)

lemma percent_0_2: "percent 0 2 = Number 0"
  by (simp add: percent_eval)

lemma extract_jd_ten:
  "extractSkillsFromText (Some ''c r go java javascript git github rest react vue'') =
     [''JavaScript'', ''Java'', ''C'', ''Go'', ''R'', ''React'', ''Vue'', ''Git'', ''GitHub'',
      ''REST'']"
  by code_simp

lemma trim_jd_ten:
  "trim ''c r go java javascript git github rest react vue'' =
     ''c r go java javascript git github rest react vue''"
  by (simp add: string_eval)

lemma run_jd_ten:
  "analyzeJD jd_ten_skills (tracking [] seven_known) =
     (JDA_Result jd_ten_result,
      tracking [] seven_known \<lparr> jdaExtractedSkills := extracted jd_ten_result \<rparr>)"
  by (simp add: analyzeJD_def jd_ten_skills_def seven_known_def jd_ten_result_def trim_jd_ten
      extract_jd_ten Let_def state_eval lower_eval tower percent_7_10)

lemma percent_2_5: "percent 2 5 = Number 40"
  by (simp add: percent_eval)

lemma percent_7_18: "percent 7 18 = Number 39"
  by (simp add: percent_eval)

lemma extract_jd_five:
  "extractSkillsFromText (Some ''c r go git github'') =
     [''C'', ''Go'', ''R'', ''Git'', ''GitHub'']"
  by code_simp

lemma run_jd_five:
  "analyzeJD jd_five_skills (tracking [] two_known) =
     (JDA_Result jd_five_result,
      tracking [] two_known \<lparr> jdaExtractedSkills := extracted jd_five_result \<rparr>)"
proof -
  have t: "trim ''c r go git github'' = ''c r go git github''"
    by (simp add: string_eval)
  show ?thesis
    by (simp add: analyzeJD_def jd_five_skills_def two_known_def jd_five_result_def t
        extract_jd_five Let_def state_eval lower_eval tower percent_2_5)
qed

lemma extract_jd_eighteen:
  "extractSkillsFromText
     (Some ''c r go java javascript git github rest react vue aws gcp php html css nlp llm oop'') =
     [''JavaScript'', ''Java'', ''C'', ''Go'', ''PHP'', ''R'', ''React'', ''Vue'', ''HTML'',
      ''CSS'', ''AWS'', ''GCP'', ''NLP'', ''LLM'', ''Git'', ''GitHub'', ''REST'', ''OOP'']"
  by code_simp

lemma run_jd_eighteen:
  "analyzeJD jd_eighteen_skills (tracking [] seven_known) =
     (JDA_Result jd_eighteen_result,
      tracking [] seven_known \<lparr> jdaExtractedSkills := extracted jd_eighteen_result \<rparr>)"
proof -
  have t: "trim ''c r go java javascript git github rest react vue aws gcp php html css nlp llm oop'' =
      ''c r go java javascript git github rest react vue aws gcp php html css nlp llm oop''"
    by (simp add: string_eval)
  show ?thesis
    by (simp add: analyzeJD_def jd_eighteen_skills_def seven_known_def jd_eighteen_result_def t
        extract_jd_eighteen Let_def state_eval lower_eval tower percent_7_18)
qed

lemma run_no_skills:
  "analyzeJD '' build a team '' (tracking [] [''Python'']) =
     (JDA_Result no_skills_result, tracking [] [''Python''])"
proof -
  have t: "trim '' build a team '' = ''build a team''"
    by (simp add: string_eval)
  have e: "extractSkillsFromText (Some ''build a team'') = []"
    by code_simp
  show ?thesis
    by (simp add: analyzeJD_def no_skills_result_def t e Let_def state_eval)
qed

theorem C6_tier_boundaries_witness:
  "score jd_ten_result = Number 70 \<and> scoreClass jd_ten_result = High \<and>
   score jd_five_result = Number 40 \<and> scoreClass jd_five_result = Mid \<and>
   score jd_eighteen_result = Number 39 \<and> scoreClass jd_eighteen_result = Low"
proof -
  have s70: "score jd_ten_result = Number 70"
    by (simp add: jd_ten_result_def)
  have s40: "score jd_five_result = Number 40"
    by (simp add: jd_five_result_def)
  have s39: "score jd_eighteen_result = Number 39"
    by (simp add: jd_eighteen_result_def)
  from C6_tier_boundaries [OF run_jd_ten] s70 have "scoreClass jd_ten_result = High"
    by auto
  moreover from C6_tier_boundaries [OF run_jd_five] s40 have "scoreClass jd_five_result = Mid"
    by auto
  moreover from C6_tier_boundaries [OF run_jd_eighteen] s39
  have "scoreClass jd_eighteen_result = Low"
    by auto
  ultimately show ?thesis
    using s70 s40 s39 by blast
qed

text \<open>
  C7, as the program has it. When the text is blank, that is empty once trimmed, the
  analyzer shows no score at all: it asks for a description and leaves the state as it
  was. When the text is not blank and no vocabulary entry occurs in it, the analyzer
  shows score 0, class \<open>low\<close> and no matched or missing skill, whatever the user's
  skills are: the comparison is not run.
\<close>

theorem C7_no_skills_terminal:
  "(trim jdaText = [] \<longrightarrow> analyzeJD jdaText s = (JDA_NoText, s)) \<and>
   (trim jdaText \<noteq> [] \<and> extractSkillsFromText (Some jdaText) = [] \<longrightarrow>
      fst (analyzeJD jdaText s) =
        JDA_Result \<lparr> noSkills = True, extracted = [], haveSkills = [], needSkills = [],
                     score = Number 0, scoreClass = Low \<rparr>)"
  by (simp add: analyzeJD_def Let_def extract_trim)

theorem C7_no_skills_terminal_witness:
  "trim [CHR 0x20, CHR 0xA0, CHR 0x09] = [] \<and>
   analyzeJD [CHR 0x20, CHR 0xA0, CHR 0x09] (tracking [] [''Python'']) =
     (JDA_NoText, tracking [] [''Python'']) \<and>
   trim '' build a team '' \<noteq> [] \<and> extractSkillsFromText (Some '' build a team '') = [] \<and>
   fst (analyzeJD '' build a team '' (tracking [] [''Python''])) =
     JDA_Result \<lparr> noSkills = True, extracted = [], haveSkills = [], needSkills = [],
                  score = Number 0, scoreClass = Low \<rparr>"
proof -
  have b: "trim [CHR 0x20, CHR 0xA0, CHR 0x09] = []"
    by (simp add: string_eval)
  have h1: "trim '' build a team '' \<noteq> []"
    by (simp add: string_eval)
  have h2: "extractSkillsFromText (Some '' build a team '') = []"
    by code_simp
  from C7_no_skills_terminal [of "[CHR 0x20, CHR 0xA0, CHR 0x09]" "tracking [] [''Python'']"] b
  have "analyzeJD [CHR 0x20, CHR 0xA0, CHR 0x09] (tracking [] [''Python'']) =
     (JDA_NoText, tracking [] [''Python''])"
    by blast
  moreover from C7_no_skills_terminal [of "'' build a team ''" "tracking [] [''Python'']"] h1 h2
  have "fst (analyzeJD '' build a team '' (tracking [] [''Python''])) =
     JDA_Result \<lparr> noSkills = True, extracted = [], haveSkills = [], needSkills = [],
                  score = Number 0, scoreClass = Low \<rparr>"
    by blast
  ultimately show ?thesis
    using b h1 h2 by blast
qed

theorem C7_blank_text_counterexample:
  "extractSkillsFromText (Some []) = [] \<and>
   fst (analyzeJD [] initial_state) = JDA_NoText \<and>
   fst (analyzeJD [] initial_state) \<noteq>
     JDA_Result \<lparr> noSkills = True, extracted = [], haveSkills = [], needSkills = [],
                  score = Number 0, scoreClass = Low \<rparr>"
  by (simp add: extractSkillsFromText_def analyzeJD_def string_eval)

section \<open>Matched, missing and readiness\<close>

lemma spec_dedup_acc:
  "distinct (map toLowerCase (acc @ xs)) \<Longrightarrow>
   foldl (\<lambda>acc x. if toLowerCase x \<in> set (map toLowerCase acc) then acc else acc @ [x]) acc xs
     = acc @ xs"
proof (induction xs arbitrary: acc)
  case Nil
  then show ?case by simp
next
  case (Cons x xs)
  from Cons.prems have "toLowerCase x \<notin> set (map toLowerCase acc)"
    by auto
  moreover from Cons.prems have "distinct (map toLowerCase ((acc @ [x]) @ xs))"
    by simp
  ultimately show ?case
    using Cons.IH [of "acc @ [x]"] by simp
qed

lemma spec_dedup_id: "distinct (map toLowerCase xs) \<Longrightarrow> spec_dedup xs = xs"
  using spec_dedup_acc [of "[]" xs] by (simp add: spec_dedup_def)

lemma distinct_map_filter': "distinct (map f xs) \<Longrightarrow> distinct (map f (filter P xs))"
  by (induction xs) auto

lemma extract_distinct_lower: "distinct (map toLowerCase (extractSkillsFromText (Some t)))"
  unfolding extract_Some by (rule distinct_map_filter') (rule KNOWN_SKILLS_distinct_lower)

lemma length_filter_split:
  "length (filter P xs) + length (filter (\<lambda>x. \<not> P x) xs) = length xs"
  by (induction xs) auto

lemma analyzeJD_result:
  assumes "analyzeJD jdaText s = (JDA_Result r, s')"
  shows "extracted r = extractSkillsFromText (Some jdaText)"
    and "haveSkills r =
      filter (\<lambda>x. toLowerCase x \<in> set (map toLowerCase (userSkills s))) (extracted r)"
    and "needSkills r =
      filter (\<lambda>x. toLowerCase x \<notin> set (map toLowerCase (userSkills s))) (extracted r)"
    and "extracted r \<noteq> [] \<Longrightarrow>
      score r = percent (length (haveSkills r)) (length (extracted r))"
    and "extracted r = [] \<Longrightarrow> score r = Number 0"
    and "s' = s\<lparr> jdaExtractedSkills := extracted r \<rparr>"
  using assms
  by (auto simp: analyzeJD_def Let_def extract_trim split: if_splits)

lemma analyzeJD_gap:
  assumes "analyzeJD jdaText s = (JDA_Result r, s')"
  shows "extracted r = extractSkillsFromText (Some jdaText) \<and>
      spec_dedup (extracted r) = extracted r \<and>
      haveSkills r = matched (spec_compare (extracted r) (userSkills s)) \<and>
      needSkills r = missing (spec_compare (extracted r) (userSkills s)) \<and>
      set (haveSkills r) \<inter> set (needSkills r) = {} \<and>
      set (haveSkills r) \<union> set (needSkills r) = set (spec_dedup (extracted r)) \<and>
      (extracted r \<noteq> [] \<longrightarrow>
         score r = percent (length (haveSkills r))
                     (length (haveSkills r) + length (needSkills r))) \<and>
      (extracted r = [] \<longrightarrow> score r = Number 0) \<and>
      (\<exists>p. score r = Number p \<and> 0 \<le> p \<and> p \<le> 100)"
proof -
  note a = analyzeJD_result [OF assms]
  have d: "spec_dedup (extracted r) = extracted r"
    unfolding a(1) by (rule spec_dedup_id) (rule extract_distinct_lower)
  have len: "length (haveSkills r) + length (needSkills r) = length (extracted r)"
    unfolding a(2) a(3) by (simp add: length_filter_split)
  have m: "haveSkills r = matched (spec_compare (extracted r) (userSkills s))"
    and n: "needSkills r = missing (spec_compare (extracted r) (userSkills s))"
    using a(2) a(3) by (simp_all add: spec_compare_def Let_def d)
  have i: "set (haveSkills r) \<inter> set (needSkills r) = {}"
    by (subst a(2), subst a(3)) auto
  have u: "set (haveSkills r) \<union> set (needSkills r) = set (spec_dedup (extracted r))"
    unfolding d by (subst a(2), subst a(3)) auto
  have sc: "extracted r \<noteq> [] \<longrightarrow>
         score r = percent (length (haveSkills r))
                     (length (haveSkills r) + length (needSkills r))"
    using a(4) len by simp
  have rg: "\<exists>p. score r = Number p \<and> 0 \<le> p \<and> p \<le> 100"
  proof (cases "extracted r = []")
    case True
    then show ?thesis using a(5) by simp
  next
    case False
    have "length (haveSkills r) \<le> length (extracted r)"
      using len by simp
    with False show ?thesis
      using a(4) percent_range [of "length (extracted r)" "length (haveSkills r)"] by simp
  qed
  from a(1) d m n i u sc a(5) rg show ?thesis
    by blast
qed

lemma progressItem_figures:
  assumes "requiredSkills c \<noteq> []"
  shows "totalSkills (progressItem us c) = length (requiredSkills c) \<and>
      acquiredSkills (progressItem us c) \<le> totalSkills (progressItem us c) \<and>
      percentage (progressItem us c) =
        percent (acquiredSkills (progressItem us c)) (totalSkills (progressItem us c)) \<and>
      (\<exists>p. percentage (progressItem us c) = Number p \<and> 0 \<le> p \<and> p \<le> 100)"
proof -
  have "length (filter (\<lambda>skill. skill \<in> set us) (requiredSkills c)) \<le> length (requiredSkills c)"
    by simp
  moreover from assms have "0 < length (requiredSkills c)"
    by simp
  ultimately have "\<exists>p. percent (length (filter (\<lambda>skill. skill \<in> set us) (requiredSkills c)))
      (length (requiredSkills c)) = Number p \<and> 0 \<le> p \<and> p \<le> 100"
    using percent_range by blast
  then show ?thesis
    by (simp add: progressItem_def Let_def)
qed

text \<open>
  C1, as the program has it. In the analyzer the required list is the extracted one, which has no
  two entries equal up to case, so deduplicating it changes nothing. Its matched and
  missing lists are those of the specification's comparator: disjoint, and together the
  extracted list. Its score is 0 when nothing was extracted and otherwise
  \<open>Math.round((matched / (matched + missing)) * 100)\<close> in double arithmetic, an integer
  from 0 to 100. On the progress page the figure of a company with at least one
  required skill is \<open>Math.round((acquired / total) * 100)\<close>, an integer from 0 to 100,
  where \<open>total\<close> counts every entry of the company's list, repeated ones included.
\<close>

theorem C1_gap_result_per_site:
  "(analyzeJD jdaText s = (JDA_Result r, s') \<longrightarrow>
      extracted r = extractSkillsFromText (Some jdaText) \<and>
      spec_dedup (extracted r) = extracted r \<and>
      haveSkills r = matched (spec_compare (extracted r) (userSkills s)) \<and>
      needSkills r = missing (spec_compare (extracted r) (userSkills s)) \<and>
      set (haveSkills r) \<inter> set (needSkills r) = {} \<and>
      set (haveSkills r) \<union> set (needSkills r) = set (spec_dedup (extracted r)) \<and>
      (extracted r \<noteq> [] \<longrightarrow>
         score r = percent (length (haveSkills r))
                     (length (haveSkills r) + length (needSkills r))) \<and>
      (extracted r = [] \<longrightarrow> score r = Number 0) \<and>
      (\<exists>p. score r = Number p \<and> 0 \<le> p \<and> p \<le> 100)) \<and>
   (requiredSkills c \<noteq> [] \<longrightarrow>
      totalSkills (progressItem us c) = length (requiredSkills c) \<and>
      acquiredSkills (progressItem us c) \<le> totalSkills (progressItem us c) \<and>
      percentage (progressItem us c) =
        percent (acquiredSkills (progressItem us c)) (totalSkills (progressItem us c)) \<and>
      (\<exists>p. percentage (progressItem us c) = Number p \<and> 0 \<le> p \<and> p \<le> 100))"
  using analyzeJD_gap [of jdaText s r s'] progressItem_figures [of c us] by blast

theorem C1_gap_result_per_site_witness:
  "analyzeJD jd_ten_skills (tracking [] seven_known) =
     (JDA_Result jd_ten_result,
      tracking [] seven_known \<lparr> jdaExtractedSkills := extracted jd_ten_result \<rparr>) \<and>
   requiredSkills (tracked 1 ''Acme'' [''Python'', ''SQL'']) \<noteq> [] \<and>
   haveSkills jd_ten_result = matched (spec_compare (extracted jd_ten_result) seven_known) \<and>
   needSkills jd_ten_result = missing (spec_compare (extracted jd_ten_result) seven_known) \<and>
   set (haveSkills jd_ten_result) \<inter> set (needSkills jd_ten_result) = {} \<and>
   (\<exists>p. score jd_ten_result = Number p \<and> 0 \<le> p \<and> p \<le> 100) \<and>
   (\<exists>p. percentage (progressItem [''Python''] (tracked 1 ''Acme'' [''Python'', ''SQL''])) =
          Number p \<and> 0 \<le> p \<and> p \<le> 100) \<and>
   extracted no_skills_result = [] \<and> score no_skills_result = Number 0"
proof -
  have e: "extracted no_skills_result = []"
    by (simp add: no_skills_result_def)
  note n = C1_gap_result_per_site [of "'' build a team ''" "tracking [] [''Python'']"
      no_skills_result "tracking [] [''Python'']"]
  from n run_no_skills e have z: "score no_skills_result = Number 0"
    by blast
  have h: "requiredSkills (tracked 1 ''Acme'' [''Python'', ''SQL'']) \<noteq> []"
    by (simp add: tracked_def)
  have u: "userSkills (tracking [] seven_known) = seven_known"
    by (simp add: state_eval)
  note c = C1_gap_result_per_site [of jd_ten_skills "tracking [] seven_known" jd_ten_result
      "tracking [] seven_known \<lparr> jdaExtractedSkills := extracted jd_ten_result \<rparr>"
      "tracked 1 ''Acme'' [''Python'', ''SQL'']" "[''Python'']"]
  from c run_jd_ten h e z show ?thesis
    unfolding u by blast
qed

theorem C1_repeated_skill_counterexample:
  "percentage (progressItem [''Python''] (tracked 1 ''Acme'' [''Python'', ''Python'', ''Go''])) =
     Number 67 \<and>
   matched (spec_compare [''Python'', ''Python'', ''Go''] [''Python'']) = [''Python''] \<and>
   missing (spec_compare [''Python'', ''Python'', ''Go''] [''Python'']) = [''Go''] \<and>
   readinessPercent (spec_compare [''Python'', ''Python'', ''Go''] [''Python'']) = 50 \<and>
   percentage (progressItem [''Python''] (tracked 1 ''Acme'' [''Python'', ''Python'', ''Go''])) \<noteq>
     Number (readinessPercent (spec_compare [''Python'', ''Python'', ''Go''] [''Python'']))"
  by (simp add: progressItem_def tracked_def Let_def tower percent_2_3 spec_compare_def
      spec_percent_def spec_dedup_def lower_eval)

section \<open>Case of letters at the three comparison sites\<close>

text \<open>
  C3, at the input where the program departs from it: one company requiring
  \<open>Python\<close>, the user having \<open>python\<close>. The company's detail page finds no
  proficient skill and lists \<open>Python\<close> as needed; the gap analysis of the same state,
  like the specification's comparator, counts \<open>Python\<close> as possessed.
\<close>

theorem C3_company_detail_compares_exactly:
  "fst (viewCompanyDetail 1 (tracking [tracked 1 ''Acme'' [''Python'']] [''python''])) =
     Some \<lparr> proficientSkills = [], neededSkills = [''Python''] \<rparr> \<and>
   fst (renderSkillGapAnalysis (tracking [tracked 1 ''Acme'' [''Python'']] [''python''])) =
     GapAnalysis \<lparr> proficientSkills = [''Python''], neededSkills = [],
                   neededChips = [], proficientChips = [(''Python'', 1)],
                   skillReadiness = Number 100 \<rparr> \<and>
   matched (spec_compare [''Python''] [''python'']) = [''Python'']"
  by (simp add: viewCompanyDetail_def renderSkillGapAnalysis_def allRequiredSkills_def
      set_add_def companyCount_def state_eval Let_def lower_eval percent_1_1 spec_compare_def
      spec_dedup_def)

lemma gap_analysis_result:
  assumes "fst (renderSkillGapAnalysis s) = GapAnalysis g"
  shows "proficientSkills g =
      filter (\<lambda>skill. toLowerCase skill \<in> set (map toLowerCase (userSkills s)))
        (allRequiredSkills (companies s))"
    and "neededSkills g =
      filter (\<lambda>skill. toLowerCase skill \<notin> set (map toLowerCase (userSkills s)))
        (allRequiredSkills (companies s))"
    and "skillReadiness g =
      (if length (proficientSkills g) + length (neededSkills g) > 0
       then percent (length (proficientSkills g))
              (length (proficientSkills g) + length (neededSkills g))
       else Number 0)"
    and "neededChips g = map (\<lambda>skill. (skill, companyCount (companies s) skill)) (neededSkills g)"
    and "proficientChips g =
      map (\<lambda>skill. (skill, companyCount (companies s) skill)) (proficientSkills g)"
    and "allRequiredSkills (companies s) \<noteq> []"
proof -
  have c: "companies s \<noteq> []"
    using assms by (cases "companies s = []") (simp_all add: renderSkillGapAnalysis_def)
  have r: "allRequiredSkills (companies s) \<noteq> []"
    using assms c
    by (cases "allRequiredSkills (companies s) = []")
      (simp_all add: renderSkillGapAnalysis_def Let_def)
  from assms c r have g: "g =
      \<lparr> proficientSkills =
          filter (\<lambda>skill. toLowerCase skill \<in> set (map toLowerCase (userSkills s)))
            (allRequiredSkills (companies s)),
        neededSkills =
          filter (\<lambda>skill. toLowerCase skill \<notin> set (map toLowerCase (userSkills s)))
            (allRequiredSkills (companies s)),
        neededChips =
          map (\<lambda>skill. (skill, companyCount (companies s) skill))
            (filter (\<lambda>skill. toLowerCase skill \<notin> set (map toLowerCase (userSkills s)))
               (allRequiredSkills (companies s))),
        proficientChips =
          map (\<lambda>skill. (skill, companyCount (companies s) skill))
            (filter (\<lambda>skill. toLowerCase skill \<in> set (map toLowerCase (userSkills s)))
               (allRequiredSkills (companies s))),
        skillReadiness =
          (let total =
             length (filter (\<lambda>skill. toLowerCase skill \<in> set (map toLowerCase (userSkills s)))
               (allRequiredSkills (companies s))) +
             length (filter (\<lambda>skill. toLowerCase skill \<notin> set (map toLowerCase (userSkills s)))
               (allRequiredSkills (companies s)))
           in if total > 0
              then percent
                (length (filter (\<lambda>skill. toLowerCase skill \<in> set (map toLowerCase (userSkills s)))
                   (allRequiredSkills (companies s)))) total
              else Number 0) \<rparr>"
    by (simp add: renderSkillGapAnalysis_def Let_def)
  show p: "proficientSkills g =
      filter (\<lambda>skill. toLowerCase skill \<in> set (map toLowerCase (userSkills s)))
        (allRequiredSkills (companies s))"
    by (subst g) simp
  show n: "neededSkills g =
      filter (\<lambda>skill. toLowerCase skill \<notin> set (map toLowerCase (userSkills s)))
        (allRequiredSkills (companies s))"
    by (subst g) simp
  have "skillReadiness g =
      (if length (filter (\<lambda>skill. toLowerCase skill \<in> set (map toLowerCase (userSkills s)))
                    (allRequiredSkills (companies s))) +
          length (filter (\<lambda>skill. toLowerCase skill \<notin> set (map toLowerCase (userSkills s)))
                    (allRequiredSkills (companies s))) > 0
       then percent
              (length (filter (\<lambda>skill. toLowerCase skill \<in> set (map toLowerCase (userSkills s)))
                    (allRequiredSkills (companies s))))
              (length (filter (\<lambda>skill. toLowerCase skill \<in> set (map toLowerCase (userSkills s)))
                    (allRequiredSkills (companies s))) +
               length (filter (\<lambda>skill. toLowerCase skill \<notin> set (map toLowerCase (userSkills s)))
                    (allRequiredSkills (companies s))))
       else Number 0)"
    by (subst g) (simp add: Let_def)
  then show "skillReadiness g =
      (if length (proficientSkills g) + length (neededSkills g) > 0
       then percent (length (proficientSkills g))
              (length (proficientSkills g) + length (neededSkills g))
       else Number 0)"
    by (simp only: p n)
  have "neededChips g = map (\<lambda>skill. (skill, companyCount (companies s) skill))
      (filter (\<lambda>skill. toLowerCase skill \<notin> set (map toLowerCase (userSkills s)))
        (allRequiredSkills (companies s)))"
    by (subst g) simp
  then show "neededChips g =
      map (\<lambda>skill. (skill, companyCount (companies s) skill)) (neededSkills g)"
    by (simp only: n)
  have "proficientChips g = map (\<lambda>skill. (skill, companyCount (companies s) skill))
      (filter (\<lambda>skill. toLowerCase skill \<in> set (map toLowerCase (userSkills s)))
        (allRequiredSkills (companies s)))"
    by (subst g) simp
  then show "proficientChips g =
      map (\<lambda>skill. (skill, companyCount (companies s) skill)) (proficientSkills g)"
    by (simp only: p)
  show "allRequiredSkills (companies s) \<noteq> []"
    by (rule r)
qed

text \<open>
  On the gap analysis page and in the analyzer a required skill counts as possessed
  exactly when some skill of the user equals it after lower-casing both, and as missing
  otherwise.
\<close>

theorem gap_analysis_and_analyzer_ignore_case:
  "(fst (renderSkillGapAnalysis s) = GapAnalysis g \<longrightarrow>
      (skill \<in> set (proficientSkills g) \<longleftrightarrow>
         skill \<in> set (allRequiredSkills (companies s)) \<and>
         (\<exists>u \<in> set (userSkills s). toLowerCase u = toLowerCase skill)) \<and>
      (skill \<in> set (neededSkills g) \<longleftrightarrow>
         skill \<in> set (allRequiredSkills (companies s)) \<and>
         \<not> (\<exists>u \<in> set (userSkills s). toLowerCase u = toLowerCase skill))) \<and>
   (analyzeJD jdaText s = (JDA_Result r, s') \<longrightarrow>
      (skill \<in> set (haveSkills r) \<longleftrightarrow>
         skill \<in> set (extracted r) \<and>
         (\<exists>u \<in> set (userSkills s). toLowerCase u = toLowerCase skill)) \<and>
      (skill \<in> set (needSkills r) \<longleftrightarrow>
         skill \<in> set (extracted r) \<and>
         \<not> (\<exists>u \<in> set (userSkills s). toLowerCase u = toLowerCase skill)))"
proof -
  have eq: "toLowerCase skill \<in> set (map toLowerCase (userSkills s)) \<longleftrightarrow>
        (\<exists>u \<in> set (userSkills s). toLowerCase u = toLowerCase skill)"
    by (metis (no_types, lifting) image_iff list.set_map)
  have 1: "fst (renderSkillGapAnalysis s) = GapAnalysis g \<Longrightarrow>
      (skill \<in> set (proficientSkills g) \<longleftrightarrow>
         skill \<in> set (allRequiredSkills (companies s)) \<and>
         toLowerCase skill \<in> set (map toLowerCase (userSkills s))) \<and>
      (skill \<in> set (neededSkills g) \<longleftrightarrow>
         skill \<in> set (allRequiredSkills (companies s)) \<and>
         toLowerCase skill \<notin> set (map toLowerCase (userSkills s)))"
    using gap_analysis_result(1,2) [of s g] by auto
  have 2: "analyzeJD jdaText s = (JDA_Result r, s') \<Longrightarrow>
      (skill \<in> set (haveSkills r) \<longleftrightarrow>
         skill \<in> set (extracted r) \<and>
         toLowerCase skill \<in> set (map toLowerCase (userSkills s))) \<and>
      (skill \<in> set (needSkills r) \<longleftrightarrow>
         skill \<in> set (extracted r) \<and>
         toLowerCase skill \<notin> set (map toLowerCase (userSkills s)))"
    using analyzeJD_result(2,3) [of jdaText s r s'] by auto
  from 1 2 show ?thesis
    unfolding eq by blast
qed

lemma run_gap_python:
  "fst (renderSkillGapAnalysis (tracking [tracked 1 ''Acme'' [''Python'']] [''python''])) =
     GapAnalysis \<lparr> proficientSkills = [''Python''], neededSkills = [],
                   neededChips = [], proficientChips = [(''Python'', 1)],
                   skillReadiness = Number 100 \<rparr>"
  by (simp add: renderSkillGapAnalysis_def allRequiredSkills_def set_add_def companyCount_def
      state_eval Let_def lower_eval percent_1_1)

theorem gap_analysis_and_analyzer_ignore_case_witness:
  "(''Python'' \<in> set [''Python''] \<longleftrightarrow>
      ''Python'' \<in> set (allRequiredSkills [tracked 1 ''Acme'' [''Python'']]) \<and>
      (\<exists>u \<in> set [''python'']. toLowerCase u = toLowerCase ''Python'')) \<and>
   (''Git'' \<in> set (needSkills jd_ten_result) \<longleftrightarrow>
      ''Git'' \<in> set (extracted jd_ten_result) \<and>
      \<not> (\<exists>u \<in> set seven_known. toLowerCase u = toLowerCase ''Git''))"
proof -
  note g = gap_analysis_and_analyzer_ignore_case
    [of "tracking [tracked 1 ''Acme'' [''Python'']] [''python'']"
        "\<lparr> proficientSkills = [''Python''], neededSkills = [],
           neededChips = [], proficientChips = [(''Python'', 1)],
           skillReadiness = Number 100 \<rparr>"
        "''Python''"]
  note a = gap_analysis_and_analyzer_ignore_case
    [of "tracking [] seven_known" _ "''Git''" jd_ten_skills jd_ten_result
        "tracking [] seven_known \<lparr> jdaExtractedSkills := extracted jd_ten_result \<rparr>"]
  have c: "companies (tracking [tracked 1 ''Acme'' [''Python'']] [''python'']) =
      [tracked 1 ''Acme'' [''Python'']]"
    and u: "userSkills (tracking [tracked 1 ''Acme'' [''Python'']] [''python'']) = [''python'']"
    and u': "userSkills (tracking [] seven_known) = seven_known"
    by (simp_all add: tracking_def)
  from g run_gap_python have
    "''Python'' \<in> set [''Python''] \<longleftrightarrow>
      ''Python'' \<in> set (allRequiredSkills [tracked 1 ''Acme'' [''Python'']]) \<and>
      (\<exists>u \<in> set [''python'']. toLowerCase u = toLowerCase ''Python'')"
    unfolding c u by simp
  moreover from a run_jd_ten have
    "''Git'' \<in> set (needSkills jd_ten_result) \<longleftrightarrow>
      ''Git'' \<in> set (extracted jd_ten_result) \<and>
      \<not> (\<exists>u \<in> set seven_known. toLowerCase u = toLowerCase ''Git'')"
    unfolding u' by blast
  ultimately show ?thesis
    by blast
qed

section \<open>Skills across companies\<close>

lemma foldl_set_add:
  "distinct acc \<Longrightarrow> distinct (foldl set_add acc xs)"
  "set (foldl set_add acc xs) = set acc \<union> set xs"
  by (induction xs arbitrary: acc) (auto simp: set_add_def)

lemma allRequiredSkills_acc:
  "distinct acc \<Longrightarrow> distinct (foldl (\<lambda>acc c. foldl set_add acc (requiredSkills c)) acc cs)"
  "set (foldl (\<lambda>acc c. foldl set_add acc (requiredSkills c)) acc cs) =
     set acc \<union> (\<Union>c \<in> set cs. set (requiredSkills c))"
  by (induction cs arbitrary: acc) (auto simp: foldl_set_add)

text \<open>
  C4, at the input where the program departs from it: two companies, one requiring
  \<open>Python\<close> and one \<open>python\<close>, and a user without skills. The gap analysis lists two
  skills to learn, \<open>Python\<close> and \<open>python\<close>, each with the count 2, and the
  dashboard counts two skills needed; deduplicated without regard to case they are the
  one skill \<open>Python\<close>.
\<close>

theorem C4_union_keeps_both_spellings:
  "fst (renderSkillGapAnalysis
          (tracking [tracked 1 ''Acme'' [''Python''], tracked 2 ''Bolt'' [''python'']] [])) =
     GapAnalysis \<lparr> proficientSkills = [], neededSkills = [''Python'', ''python''],
                   neededChips = [(''Python'', 2), (''python'', 2)], proficientChips = [],
                   skillReadiness = Number 0 \<rparr> \<and>
   fst (renderDashboard
          (tracking [tracked 1 ''Acme'' [''Python''], tracked 2 ''Bolt'' [''python'']] [])) =
     \<lparr> totalCompanies = 2, favoriteCount = 0, skillsNeeded = 2, skillsAcquired = 0,
       overallProgress = Number 0 \<rparr> \<and>
   spec_dedup [''Python'', ''python''] = [''Python'']"
  by (simp add: renderSkillGapAnalysis_def renderDashboard_def allRequiredSkills_def
      set_add_def companyCount_def state_eval Let_def lower_eval percent_0_2 tower
      spec_dedup_def)

text \<open>
  The union of the required skills holds every spelling that occurs in some company's
  list exactly once, and the count on a skill's chip is the number of companies one of
  whose required skills equals it after lower-casing both.
\<close>

theorem union_is_exact_and_count_ignores_case:
  "distinct (allRequiredSkills cs) \<and>
   set (allRequiredSkills cs) = (\<Union>c \<in> set cs. set (requiredSkills c)) \<and>
   companyCount cs skill =
     length (filter (\<lambda>c. \<exists>r \<in> set (requiredSkills c). toLowerCase r = toLowerCase skill) cs)"
proof -
  have eq: "toLowerCase skill \<in> set (map toLowerCase (requiredSkills c)) \<longleftrightarrow>
        (\<exists>r \<in> set (requiredSkills c). toLowerCase r = toLowerCase skill)" for c :: company
    by (metis (no_types, lifting) image_iff list.set_map)
  have "companyCount cs skill =
     length (filter (\<lambda>c. \<exists>r \<in> set (requiredSkills c). toLowerCase r = toLowerCase skill) cs)"
    unfolding companyCount_def by (simp only: eq)
  then show ?thesis
    by (simp add: allRequiredSkills_def allRequiredSkills_acc)
qed

text \<open>
  The dashboard and the gap analysis page guard the division: their readiness is always
  an integer from 0 to 100.
\<close>

theorem readiness_guarded_on_dashboard_and_gap_page:
  "(\<exists>p. overallProgress (fst (renderDashboard s)) = Number p \<and> 0 \<le> p \<and> p \<le> 100) \<and>
   (fst (renderSkillGapAnalysis s) = GapAnalysis g \<longrightarrow>
      (\<exists>p. skillReadiness g = Number p \<and> 0 \<le> p \<and> p \<le> 100))"
proof -
  have d: "\<exists>p. overallProgress (fst (renderDashboard s)) = Number p \<and> 0 \<le> p \<and> p \<le> 100"
  proof (cases "allRequiredSkills (companies s) = []")
    case True
    then show ?thesis
      by (simp add: renderDashboard_def Let_def)
  next
    case False
    then have "0 < length (allRequiredSkills (companies s))"
      by simp
    moreover have "length (filter (\<lambda>skill. skill \<in> set (userSkills s))
        (allRequiredSkills (companies s))) \<le> length (allRequiredSkills (companies s))"
      by simp
    ultimately have "\<exists>p. percent (length (filter (\<lambda>skill. skill \<in> set (userSkills s))
        (allRequiredSkills (companies s)))) (length (allRequiredSkills (companies s))) = Number p
        \<and> 0 \<le> p \<and> p \<le> 100"
      by (rule percent_range)
    with False show ?thesis
      by (simp add: renderDashboard_def Let_def)
  qed
  have "\<exists>p. skillReadiness g = Number p \<and> 0 \<le> p \<and> p \<le> 100"
    if a: "fst (renderSkillGapAnalysis s) = GapAnalysis g"
  proof (cases "length (proficientSkills g) + length (neededSkills g) > 0")
    case True
    then show ?thesis
      using gap_analysis_result(3) [OF a]
        percent_range [of "length (proficientSkills g) + length (neededSkills g)"
          "length (proficientSkills g)"]
      by simp
  next
    case False
    then show ?thesis
      using gap_analysis_result(3) [OF a] by simp
  qed
  with d show ?thesis
    by blast
qed

theorem readiness_guarded_on_dashboard_and_gap_page_witness:
  "(\<exists>p. overallProgress
          (fst (renderDashboard (tracking [tracked 1 ''Acme'' [''Python'']] [''python'']))) =
        Number p \<and> 0 \<le> p \<and> p \<le> 100) \<and>
   (\<exists>p. Number 100 = Number p \<and> 0 \<le> p \<and> p \<le> 100)"
  using readiness_guarded_on_dashboard_and_gap_page
    [of "tracking [tracked 1 ''Acme'' [''Python'']] [''python'']"
        "\<lparr> proficientSkills = [''Python''], neededSkills = [],
           neededChips = [], proficientChips = [(''Python'', 1)],
           skillReadiness = Number 100 \<rparr>"]
    run_gap_python
  by simp

section \<open>Progress ranking\<close>

lemma negative_compare:
  assumes "\<exists>p. f x = Number p" and "\<exists>p. f y = Number p"
  shows "js_negative (sortCompare (\<lambda>a b. js_minus (f a) (f b)) x y) \<longleftrightarrow>
         figure (f x) < figure (f y)"
  using assms by (auto simp: sortCompare_def figure_def)

lemma takeRun_append: "takeRun c previous xs = (run, others) \<Longrightarrow> run @ others = xs"
  by (induction xs arbitrary: previous run others) (auto split: if_splits prod.splits)

lemma takeRun_sorted_wrt:
  assumes "takeRun c previous xs = (run, others)"
    and "\<And>x y. x \<in> set (previous # xs) \<Longrightarrow> y \<in> set (previous # xs) \<Longrightarrow> c x y \<Longrightarrow> R y x"
    and "transp R"
  shows "sorted_wrt R (previous # run)"
  using assms(1,2)
proof (induction xs arbitrary: previous run others)
  case Nil
  then show ?case by simp
next
  case (Cons x xs)
  show ?case
  proof (cases "c x previous")
    case False
    with Cons.prems(1) show ?thesis by simp
  next
    case True
    then obtain run' where r: "takeRun c x xs = (run', others)" and run: "run = x # run'"
      using Cons.prems(1) by (auto split: prod.splits)
    have "sorted_wrt R (x # run')"
      using r Cons.prems(2) by (intro Cons.IH) auto
    moreover have "R previous x"
      using True Cons.prems(2) by simp
    ultimately have "\<forall>y \<in> set (x # run'). R previous y"
      using assms(3) by (auto dest: transpD)
    with \<open>sorted_wrt R (x # run')\<close> show ?thesis
      by (simp add: run)
  qed
qed

lemma filter_rev_strict:
  "sorted_wrt (\<lambda>x y. k y < k x) L \<Longrightarrow>
   filter (\<lambda>z. k z = v) (rev L) = filter (\<lambda>z. k z = (v::int)) L"
proof (induction L)
  case Nil
  then show ?case by simp
next
  case (Cons x xs)
  then have ih: "filter (\<lambda>z. k z = v) (rev xs) = filter (\<lambda>z. k z = v) xs"
    by simp
  show ?case
  proof (cases "k x = v")
    case True
    with Cons.prems have "filter (\<lambda>z. k z = v) xs = []"
      by (auto simp: filter_empty_conv)
    with True ih show ?thesis by simp
  next
    case False
    with ih show ?thesis by simp
  qed
qed

lemma countRun_properties:
  fixes f :: "'a \<Rightarrow> jsnum"
  defines "c \<equiv> (\<lambda>a b. js_minus (f a) (f b))"
  assumes num: "\<forall>y \<in> set xs. \<exists>p. f y = Number p"
    and cr: "countRunAndMakeAscending c xs = (run, others)"
  shows "mset run + mset others = mset xs"
    and "sorted (map (\<lambda>x. figure (f x)) run)"
    and "filter (\<lambda>z. figure (f z) = v) run @ filter (\<lambda>z. figure (f z) = v) others =
         filter (\<lambda>z. figure (f z) = v) xs"
    and "set run \<union> set others = set xs"
proof -
  let ?k = "\<lambda>x. figure (f x)"
  have all: "mset run + mset others = mset xs \<and> sorted (map ?k run) \<and>
      filter (\<lambda>z. ?k z = v) run @ filter (\<lambda>z. ?k z = v) others = filter (\<lambda>z. ?k z = v) xs"
  proof -
    consider "xs = []" | a where "xs = [a]" | a b ys where "xs = a # b # ys"
      by (metis neq_Nil_conv)
    then show ?thesis
    proof cases
      case 1
      with cr show ?thesis by simp
    next
      case 2
      with cr show ?thesis by auto
    next
      case (3 a b ys)
      then have xs: "xs = a # b # ys" .
    have neg: "js_negative (sortCompare c x y) \<longleftrightarrow> ?k x < ?k y"
      if "x \<in> set xs" "y \<in> set xs" for x y
      unfolding c_def using that num by (intro negative_compare) auto
    show ?thesis
    proof (cases "js_negative (sortCompare c b a)")
      case True
      then obtain r where t: "takeRun (\<lambda>x previous. js_negative (sortCompare c x previous)) b ys
            = (r, others)" and run: "run = rev (a # b # r)"
        using cr xs by (auto split: prod.splits)
      have app: "r @ others = ys"
        using t by (rule takeRun_append)
      have "sorted_wrt (\<lambda>x y. ?k y < ?k x) (b # r)"
        using t
      proof (rule takeRun_sorted_wrt)
        show "transp (\<lambda>x y. ?k y < ?k x)"
          by (auto intro: transpI)
        show "?k x < ?k y" if "x \<in> set (b # ys)" "y \<in> set (b # ys)"
          "js_negative (sortCompare c x y)" for x y
          using that neg [of x y] xs by auto
      qed
      moreover have "?k b < ?k a"
        using True neg [of b a] xs by simp
      ultimately have desc: "sorted_wrt (\<lambda>x y. ?k y < ?k x) (a # b # r)"
        by auto
      then have "sorted_wrt (\<lambda>x y. ?k x < ?k y) (rev (a # b # r))"
        unfolding sorted_wrt_rev .
      then have "sorted_wrt (\<lambda>x y. ?k x \<le> ?k y) (rev (a # b # r))"
        by (rule sorted_wrt_mono_rel [rotated]) auto
      then have s: "sorted (map ?k run)"
        by (simp only: run sorted_map)
      have "filter (\<lambda>z. ?k z = v) run = filter (\<lambda>z. ?k z = v) (a # b # r)"
        unfolding run using desc by (rule filter_rev_strict)
      then have fl: "filter (\<lambda>z. ?k z = v) run @ filter (\<lambda>z. ?k z = v) others =
          filter (\<lambda>z. ?k z = v) xs"
        using app xs by (metis append_Cons filter_append)
      have "mset run + mset others = mset xs"
        using app xs by (auto simp: run)
      with s fl show ?thesis by blast
    next
      case False
      then obtain r where t: "takeRun (\<lambda>x previous. \<not> js_negative (sortCompare c x previous)) b ys
            = (r, others)" and run: "run = a # b # r"
        using cr xs by (auto split: prod.splits)
      have app: "r @ others = ys"
        using t by (rule takeRun_append)
      have "sorted_wrt (\<lambda>x y. ?k x \<le> ?k y) (b # r)"
        using t
      proof (rule takeRun_sorted_wrt)
        show "transp (\<lambda>x y. ?k x \<le> ?k y)"
          by (auto intro: transpI)
        show "?k y \<le> ?k x" if "x \<in> set (b # ys)" "y \<in> set (b # ys)"
          "\<not> js_negative (sortCompare c x y)" for x y
          using that neg [of x y] xs by auto
      qed
      moreover have "?k a \<le> ?k b"
        using False neg [of b a] xs by simp
      ultimately have "sorted_wrt (\<lambda>x y. ?k x \<le> ?k y) (a # b # r)"
        by auto
      then have s: "sorted (map ?k run)"
        by (simp only: run sorted_map)
      from app xs run have "run @ others = xs"
        by simp
      then have "filter (\<lambda>z. ?k z = v) run @ filter (\<lambda>z. ?k z = v) others =
          filter (\<lambda>z. ?k z = v) xs" and "mset run + mset others = mset xs"
        by (metis filter_append, metis mset_append)
      with s show ?thesis by blast
    qed
    qed
  qed
  then show "mset run + mset others = mset xs"
    and "sorted (map (\<lambda>x. figure (f x)) run)"
    and "filter (\<lambda>z. figure (f z) = v) run @ filter (\<lambda>z. figure (f z) = v) others =
         filter (\<lambda>z. figure (f z) = v) xs"
    by blast+
  from all have "set_mset (mset run + mset others) = set_mset (mset xs)"
    by simp
  then show "set run \<union> set others = set xs"
    by simp
qed

lemma binarySearch_bounds:
  fixes k :: "'a \<Rightarrow> int"
  assumes "\<And>y. y \<in> set xs \<Longrightarrow> js_negative (sortCompare c p y) \<longleftrightarrow> k p < k y"
    and "sorted (map k xs)"
    and "left \<le> right" and "right \<le> length xs"
    and "\<forall>i<left. k (xs ! i) \<le> k p"
    and "\<forall>i. right \<le> i \<and> i < length xs \<longrightarrow> k p < k (xs ! i)"
  shows "binarySearch c p xs left right \<le> length xs \<and>
    (\<forall>i<binarySearch c p xs left right. k (xs ! i) \<le> k p) \<and>
    (\<forall>i. binarySearch c p xs left right \<le> i \<and> i < length xs \<longrightarrow> k p < k (xs ! i))"
  using assms
proof (induction c p xs left right rule: binarySearch.induct)
  case (1 c p xs left right)
  show ?case
  proof (cases "left < right")
    case False
    with "1.prems" have "left = right" by simp
    with False "1.prems" show ?thesis
      by (subst binarySearch.simps, subst (2) binarySearch.simps, subst (3) binarySearch.simps) simp
  next
    case True
    define mid where "mid = left + (right - left) div 2"
    have m: "left \<le> mid" "mid < right" "mid < length xs"
      using True "1.prems"(4) by (simp_all add: mid_def)
    have srt: "i \<le> j \<Longrightarrow> j < length xs \<Longrightarrow> k (xs ! i) \<le> k (xs ! j)" for i j
      using "1.prems"(2) by (simp add: sorted_iff_nth_mono)
    show ?thesis
    proof (cases "js_negative (sortCompare c p (xs ! mid))")
      case neg: True
      then have lt: "k p < k (xs ! mid)"
        using "1.prems"(1) [of "xs ! mid"] m by simp
      have up: "\<forall>i. mid \<le> i \<and> i < length xs \<longrightarrow> k p < k (xs ! i)"
        using lt srt by (meson less_le_trans)
      have eq: "binarySearch c p xs left right = binarySearch c p xs left mid"
        using True neg by (subst binarySearch.simps) (simp add: mid_def Let_def)
      have "binarySearch c p xs left mid \<le> length xs \<and>
        (\<forall>i<binarySearch c p xs left mid. k (xs ! i) \<le> k p) \<and>
        (\<forall>i. binarySearch c p xs left mid \<le> i \<and> i < length xs \<longrightarrow> k p < k (xs ! i))"
        using True neg m "1.prems"(1,2,5) up
        by (intro "1.IH"(1) [of mid]) (simp_all add: mid_def)
      then show ?thesis
        unfolding eq .
    next
      case nneg: False
      then have le: "k (xs ! mid) \<le> k p"
        using "1.prems"(1) [of "xs ! mid"] m by simp
      have low: "\<forall>i<mid + 1. k (xs ! i) \<le> k p"
      proof (intro allI impI)
        fix i assume "i < mid + 1"
        then have "i \<le> mid" by simp
        then have "k (xs ! i) \<le> k (xs ! mid)"
          using m(3) by (rule srt)
        with le show "k (xs ! i) \<le> k p" by simp
      qed
      have eq: "binarySearch c p xs left right = binarySearch c p xs (mid + 1) right"
        using True nneg by (subst binarySearch.simps) (simp add: mid_def Let_def)
      have "binarySearch c p xs (mid + 1) right \<le> length xs \<and>
        (\<forall>i<binarySearch c p xs (mid + 1) right. k (xs ! i) \<le> k p) \<and>
        (\<forall>i. binarySearch c p xs (mid + 1) right \<le> i \<and> i < length xs \<longrightarrow> k p < k (xs ! i))"
        using True nneg m "1.prems"(1,2,4,6) low
        by (intro "1.IH"(2) [of mid]) (simp_all add: mid_def)
      then show ?thesis
        unfolding eq .
    qed
  qed
qed

lemma insertPivot_properties:
  fixes f :: "'a \<Rightarrow> jsnum"
  defines "c \<equiv> (\<lambda>a b. js_minus (f a) (f b))"
  assumes num: "\<forall>y \<in> set (p # xs). \<exists>q. f y = Number q"
    and srt: "sorted (map (\<lambda>x. figure (f x)) xs)"
  shows "mset (insertPivot c xs p) = add_mset p (mset xs)"
    and "sorted (map (\<lambda>x. figure (f x)) (insertPivot c xs p))"
    and "filter (\<lambda>z. figure (f z) = v) (insertPivot c xs p) =
         filter (\<lambda>z. figure (f z) = v) xs @ (if figure (f p) = v then [p] else [])"
proof -
  let ?k = "\<lambda>x. figure (f x)"
  define r where "r = binarySearch c p xs 0 (length xs)"
  have ins: "insertPivot c xs p = take r xs @ p # drop r xs"
    by (simp add: insertPivot_def r_def Let_def)
  have neg: "js_negative (sortCompare c p y) \<longleftrightarrow> ?k p < ?k y" if "y \<in> set xs" for y
    unfolding c_def using that num by (intro negative_compare) auto
  have b: "r \<le> length xs \<and> (\<forall>i<r. ?k (xs ! i) \<le> ?k p) \<and>
      (\<forall>i. r \<le> i \<and> i < length xs \<longrightarrow> ?k p < ?k (xs ! i))"
    unfolding r_def using neg srt by (intro binarySearch_bounds) simp_all
  have lo: "\<forall>y \<in> set (take r xs). ?k y \<le> ?k p"
  proof
    fix y assume "y \<in> set (take r xs)"
    then obtain i where "i < length (take r xs)" "y = take r xs ! i"
      by (metis in_set_conv_nth)
    then show "?k y \<le> ?k p"
      using b by simp
  qed
  have hi: "\<forall>y \<in> set (drop r xs). ?k p < ?k y"
  proof
    fix y assume "y \<in> set (drop r xs)"
    then obtain i where i: "i < length (drop r xs)" "y = drop r xs ! i"
      by (metis in_set_conv_nth)
    then have "y = xs ! (r + i)" "r + i < length xs"
      using b by simp_all
    then show "?k p < ?k y"
      using b by simp
  qed
  show "mset (insertPivot c xs p) = add_mset p (mset xs)"
  proof -
    have "mset (take r xs) + mset (drop r xs) = mset xs"
      by (metis append_take_drop_id mset_append)
    then show ?thesis
      by (simp add: ins)
  qed
  have st: "sorted (map ?k (take r xs))" "sorted (map ?k (drop r xs))"
    using srt by (simp_all add: sorted_map)
  show "sorted (map ?k (insertPivot c xs p))"
    using st lo hi by (fastforce simp: ins sorted_append)
  have d: "filter (\<lambda>z. ?k z = v) (drop r xs) = []" if "?k p = v"
    using hi that by (auto simp: filter_empty_conv)
  have x: "filter (\<lambda>z. ?k z = v) xs =
      filter (\<lambda>z. ?k z = v) (take r xs) @ filter (\<lambda>z. ?k z = v) (drop r xs)"
    by (metis append_take_drop_id filter_append)
  show "filter (\<lambda>z. ?k z = v) (insertPivot c xs p) =
         filter (\<lambda>z. ?k z = v) xs @ (if ?k p = v then [p] else [])"
    using d x by (simp add: ins)
qed

lemma foldl_insertPivot:
  fixes f :: "'a \<Rightarrow> jsnum"
  defines "c \<equiv> (\<lambda>a b. js_minus (f a) (f b))"
  assumes "\<forall>y \<in> set (run @ others). \<exists>q. f y = Number q"
    and "sorted (map (\<lambda>x. figure (f x)) run)"
  shows "mset (foldl (insertPivot c) run others) = mset run + mset others \<and>
     sorted (map (\<lambda>x. figure (f x)) (foldl (insertPivot c) run others)) \<and>
     filter (\<lambda>z. figure (f z) = v) (foldl (insertPivot c) run others) =
       filter (\<lambda>z. figure (f z) = v) run @ filter (\<lambda>z. figure (f z) = v) others"
  using assms(2,3)
proof (induction others arbitrary: run)
  case Nil
  then show ?case by simp
next
  case (Cons p ps)
  have num: "\<forall>y \<in> set (p # run). \<exists>q. f y = Number q"
    using Cons.prems(1) by auto
  note ip = insertPivot_properties [OF num Cons.prems(2), folded c_def]
  have "set (insertPivot c run p) = insert p (set run)"
    using ip(1) by (metis set_mset_add_mset_insert set_mset_mset)
  then have "\<forall>y \<in> set (insertPivot c run p @ ps). \<exists>q. f y = Number q"
    using Cons.prems(1) by auto
  from Cons.IH [OF this ip(2)] show ?case
    by (simp add: ip(1) ip(3))
qed

lemma js_sort_stable:
  assumes "\<forall>y \<in> set xs. \<exists>p. f y = Number p"
  shows "js_sort (\<lambda>a b. js_minus (f a) (f b)) xs = sort_key (\<lambda>x. figure (f x)) xs"
proof -
  let ?c = "\<lambda>a b. js_minus (f a) (f b)"
  obtain run others where cr: "countRunAndMakeAscending ?c xs = (run, others)"
    by (cases "countRunAndMakeAscending ?c xs")
  note cp = countRun_properties [OF assms cr]
  have num: "\<forall>y \<in> set (run @ others). \<exists>q. f y = Number q"
    using assms cp(4) by auto
  note fp = foldl_insertPivot [OF num cp(2)]
  have js: "js_sort ?c xs = foldl (insertPivot ?c) run others"
    by (simp add: js_sort_def cr)
  show ?thesis
  proof (rule sym, rule properties_for_sort_key)
    show "mset (js_sort ?c xs) = mset xs"
      using fp cp(1) by (simp add: js)
    show "sorted (map (\<lambda>x. figure (f x)) (js_sort ?c xs))"
      using fp by (simp add: js)
    show "filter (\<lambda>x. figure (f k) = figure (f x)) (js_sort ?c xs) =
        filter (\<lambda>x. figure (f k) = figure (f x)) xs" for k
    proof -
      have "filter (\<lambda>z. figure (f z) = figure (f k)) (js_sort ?c xs) =
         filter (\<lambda>z. figure (f z) = figure (f k)) xs"
        using fp [of "figure (f k)"] cp(3) [of "figure (f k)"] by (simp add: js)
      then show ?thesis
        by (simp add: eq_commute)
    qed
  qed
qed

lemma js_sort_figures_example:
  "js_sort js_minus [Number 50, Number 10, NaN, Number 0] =
     [Number 0, Number 10, Number 50, NaN] \<and>
   js_sort js_minus [Number 50, NaN, Number 0, Number 10] =
     [Number 50, NaN, Number 0, Number 10]"
  by (simp add: js_sort_def sortCompare_def insertPivot_def binarySearch.simps Let_def)

lemma progressItem_Number:
  "requiredSkills c \<noteq> [] \<Longrightarrow> \<exists>p. percentage (progressItem us c) = Number p"
  using progressItem_figures [of c us] by blast

text \<open>
  When every tracked company has at least one required skill, the progress page lists
  the companies by ascending figure, companies of equal figure in the order in which
  they were added: the list is the stable sort of the companies by their figure.
\<close>

theorem ranking_is_stable_sort:
  assumes "companies s \<noteq> []" and "\<forall>c \<in> set (companies s). requiredSkills c \<noteq> []"
  shows "fst (renderProgress s) =
     ProgressItems
       (sort_key (\<lambda>i. figure (percentage i))
          (map (progressItem (userSkills s)) (companies s)))"
proof -
  have "\<forall>i \<in> set (map (progressItem (userSkills s)) (companies s)). \<exists>p. percentage i = Number p"
    using assms(2) progressItem_Number by auto
  then have "js_sort (\<lambda>a b. js_minus (percentage a) (percentage b))
       (map (progressItem (userSkills s)) (companies s)) =
     sort_key (\<lambda>i. figure (percentage i)) (map (progressItem (userSkills s)) (companies s))"
    by (rule js_sort_stable)
  with assms(1) show ?thesis
    by (simp add: renderProgress_def)
qed

theorem ranking_is_stable_sort_witness:
  "(case fst (renderProgress
               (tracking [tracked 1 ''A'' [''Python'', ''SQL''], tracked 2 ''C'' [''Go''],
                          tracked 3 ''E'' [''Rust'']] [''Python''])) of
      ProgressEmpty \<Rightarrow> []
    | ProgressItems items \<Rightarrow> map (\<lambda>i. (name (company i), percentage i)) items) =
     [(''C'', Number 0), (''E'', Number 0), (''A'', Number 50)]"
proof -
  let ?s = "tracking [tracked 1 ''A'' [''Python'', ''SQL''], tracked 2 ''C'' [''Go''],
                          tracked 3 ''E'' [''Rust'']] [''Python'']"
  have h1: "companies ?s \<noteq> []"
    by (simp add: state_eval)
  have h2: "\<forall>c \<in> set (companies ?s). requiredSkills c \<noteq> []"
    by (simp add: state_eval)
  show ?thesis
    unfolding ranking_is_stable_sort [OF h1 h2]
    by (simp add: state_eval progressItem_def Let_def percent_1_2 percent_0_1 tower figure_def)
qed

text \<open>
  On the progress page a company all of whose required skills the user has, letter for
  letter, is at 100, and one of whose required skills the user has none is at 0,
  provided the company requires at least one skill.
\<close>

theorem progress_full_and_none:
  assumes "requiredSkills c \<noteq> []"
  shows "(set (requiredSkills c) \<subseteq> set us \<longrightarrow> percentage (progressItem us c) = Number 100) \<and>
         (set (requiredSkills c) \<inter> set us = {} \<longrightarrow> percentage (progressItem us c) = Number 0)"
proof -
  from assms have t: "0 < length (requiredSkills c)"
    by simp
  have "filter (\<lambda>skill. skill \<in> set us) (requiredSkills c) = requiredSkills c"
    if "set (requiredSkills c) \<subseteq> set us"
    using that by (auto simp: filter_id_conv)
  moreover have "filter (\<lambda>skill. skill \<in> set us) (requiredSkills c) = []"
    if "set (requiredSkills c) \<inter> set us = {}"
    using that by (auto simp: filter_empty_conv)
  ultimately show ?thesis
    using t by (auto simp: progressItem_def Let_def percent_all percent_none)
qed

theorem progress_full_and_none_witness:
  "percentage (progressItem [''SQL'', ''Go'', ''Python'']
                 (tracked 1 ''Acme'' [''Python'', ''SQL''])) = Number 100 \<and>
   percentage (progressItem [] (tracked 1 ''Acme'' [''Python'', ''SQL''])) = Number 0"
proof -
  have h: "requiredSkills (tracked 1 ''Acme'' [''Python'', ''SQL'']) \<noteq> []"
    by (simp add: tracked_def)
  have s1: "set (requiredSkills (tracked 1 ''Acme'' [''Python'', ''SQL''])) \<subseteq>
      set [''SQL'', ''Go'', ''Python'']"
    and s2: "set (requiredSkills (tracked 1 ''Acme'' [''Python'', ''SQL''])) \<inter> set [] = {}"
    by (simp_all add: tracked_def)
  from progress_full_and_none [OF h, of "[''SQL'', ''Go'', ''Python'']"] s1
    progress_full_and_none [OF h, of "[]"] s2
  show ?thesis
    by blast
qed

text \<open>
  C2, at the specification's own example: companies A (Python, SQL), B (no skill) and
  C (Go), the user having Python. The figures are 50, NaN and 0: the company without
  required skills gets \<open>0 / 0\<close>. Every comparison with B yields NaN, and the page
  lists A, B, C.
\<close>

theorem C2_ranking_example_has_NaN:
  "map percentage
     (map (progressItem [''Python''])
        [tracked 1 ''A'' [''Python'', ''SQL''], tracked 2 ''B'' [], tracked 3 ''C'' [''Go'']]) =
     [Number 50, NaN, Number 0] \<and>
   (case fst (renderProgress
               (tracking [tracked 1 ''A'' [''Python'', ''SQL''], tracked 2 ''B'' [],
                          tracked 3 ''C'' [''Go'']] [''Python''])) of
      ProgressEmpty \<Rightarrow> []
    | ProgressItems items \<Rightarrow> map (\<lambda>i. (name (company i), percentage i)) items) =
     [(''A'', Number 50), (''B'', NaN), (''C'', Number 0)]"
  by (simp add: renderProgress_def progressItem_def js_sort_def sortCompare_def
      insertPivot_def binarySearch.simps state_eval Let_def percent_1_2 percent_0_1
      percent_zero_total tower)

section \<open>Frame\<close>

text \<open>
  C9. No core operation changes \<open>companies\<close> or \<open>userSkills\<close>: the three pages return
  the state as it was, the analyzer changes \<open>jdaExtractedSkills\<close> only and the detail
  page \<open>currentCompany\<close> only. Run a second time, each operation returns what it
  returned the first time.
\<close>

theorem C9_core_operations_frame:
  "companies (snd (analyzeJD jdaText s)) = companies s \<and>
   userSkills (snd (analyzeJD jdaText s)) = userSkills s \<and>
   analyzeJD jdaText (snd (analyzeJD jdaText s)) = analyzeJD jdaText s \<and>
   snd (renderSkillGapAnalysis s) = s \<and>
   snd (renderProgress s) = s \<and>
   snd (renderDashboard s) = s \<and>
   companies (snd (viewCompanyDetail companyId s)) = companies s \<and>
   userSkills (snd (viewCompanyDetail companyId s)) = userSkills s \<and>
   viewCompanyDetail companyId (snd (viewCompanyDetail companyId s)) =
     viewCompanyDetail companyId s"
  by (auto simp: analyzeJD_def renderSkillGapAnalysis_def renderProgress_def
      renderDashboard_def viewCompanyDetail_def Let_def split: option.splits)

theorem C9_core_operations_frame_witness:
  "companies (snd (analyzeJD jd_ten_skills (tracking [tracked 1 ''Acme'' [''Go'']] seven_known))) =
     [tracked 1 ''Acme'' [''Go'']] \<and>
   userSkills (snd (analyzeJD jd_ten_skills (tracking [tracked 1 ''Acme'' [''Go'']] seven_known))) =
     seven_known \<and>
   snd (renderProgress (tracking [tracked 1 ''Acme'' [''Go'']] seven_known)) =
     tracking [tracked 1 ''Acme'' [''Go'']] seven_known"
  using C9_core_operations_frame
    [of jd_ten_skills "tracking [tracked 1 ''Acme'' [''Go'']] seven_known" 1]
  by (simp add: tracking_def)

end
